theory Spec2Isabelle
  imports Main
begin

section \<open>Data model of the index (btree.h)\<close>

text \<open>
  Page numbers are unsigned integers; page number 0 is "no page". Keys are C++ \<open>int\<close>
  values that the index only copies and compares, so they are modelled as integers.
  The slot counts \<open>INTARRAYLEAFSIZE\<close> and \<open>INTARRAYNONLEAFSIZE\<close> are computed in btree.h
  from \<open>Page::SIZE\<close> and \<open>sizeof\<close>, which are declared outside the source at hand; every
  function below takes them as the parameters \<open>L\<close> (leaf slots) and \<open>M\<close> (non-leaf key
  slots).
\<close>

type_synonym PageId = nat

record RecordId =
  page_number :: PageId
  slot_number :: nat

datatype Datatype = INTEGER | DOUBLE | STRING

datatype Operator = LT | LTE | GTE | GT

record IndexMetaInfo =
  relationName :: string
  attrByteOffset :: int
  attrType :: Datatype
  rootPageNo :: PageId

record NonLeafNodeInt =
  level :: int
  keyArray :: "int list"
  pageNoArray :: "PageId list"

record LeafNodeInt =
  level :: int
  keyArray :: "int list"
  ridArray :: "RecordId list"
  rightSibPageNo :: PageId

text \<open>
  A page of the index file is a raw buffer that the code casts to one of the three
  structs. The model tags each page with the struct that was written into it;
  \<open>RawPage\<close> is a page that was allocated and not yet written.
\<close>

datatype Page =
    RawPage
  | MetaPage IndexMetaInfo
  | LeafPage LeafNodeInt
  | NonLeafPage NonLeafNodeInt

datatype error =
    BadIndexInfoException
  | BadOpcodesException
  | BadScanrangeException
  | NoSuchKeyFoundException
  | ScanNotInitializedException
  | IndexScanCompletedException
  | FileNotFoundException
  | EndOfFileException
  | InvalidPageException
  | PagePinnedException
  | BadCast
  | NullPointer
  | OutOfBounds

text \<open>
  The last three are not C++ exceptions. They mark runs whose behaviour C++ leaves
  undefined and the model does not follow: \<open>BadCast\<close> reads a page through the wrong
  struct, \<open>NullPointer\<close> follows a null pointer, \<open>OutOfBounds\<close> uses a value read outside
  an array.
\<close>

text \<open>
  Two loop conditions of the source read an array slot before they compare the index
  with the array's size, so their last evaluation reads one slot past the end.
  \<open>peek junk xs i\<close> is that read: slot \<open>i\<close> of \<open>xs\<close>, or \<open>junk\<close>, whatever the memory
  after the array holds, when \<open>i\<close> is past the end.
\<close>

definition peek :: "'a \<Rightarrow> 'a list \<Rightarrow> nat \<Rightarrow> 'a" where
  "peek junk xs i = (if i < length xs then xs ! i else junk)"

section \<open>The buffer manager\<close>

text \<open>
  Modelled from the spec: the buffer manager and the paged file are not part of the
  source at hand. The spec gives their contract: \<open>read_page\<close> and \<open>alloc_page\<close> return
  with the page pinned, \<open>unpin_page\<close> releases one pin and optionally marks the page
  dirty, and the file is a sequence of pages numbered from 1. The record below is the
  buffer manager restricted to the index file: the file's pages as seen through the
  pool, with a pin count and a dirty bit for each page; page number \<open>p\<close> is at index
  \<open>p - 1\<close> of the three lists. Reading a page number that the file does not have is
  the fault \<open>InvalidPageException\<close>. The spec does not say what unpinning does to a page
  that is not pinned or not in the file; here the count stays 0, respectively nothing
  changes (no theorem below depends on these cases).
\<close>

record BufMgr =
  pages :: "Page list"
  pinCnt :: "nat list"
  dirty :: "bool list"

definition validPage :: "BufMgr \<Rightarrow> PageId \<Rightarrow> bool" where
  "validPage bm pid = (1 \<le> pid \<and> pid \<le> length (pages bm))"

definition getPage :: "BufMgr \<Rightarrow> PageId \<Rightarrow> Page" where
  "getPage bm pid = pages bm ! (pid - 1)"

definition putPage :: "BufMgr \<Rightarrow> PageId \<Rightarrow> Page \<Rightarrow> BufMgr" where
  "putPage bm pid p = bm\<lparr>pages := (pages bm)[pid - 1 := p]\<rparr>"

definition readPage :: "BufMgr \<Rightarrow> PageId \<Rightarrow> (Page \<times> BufMgr) option" where
  "readPage bm pid =
     (if validPage bm pid
      then Some (getPage bm pid, bm\<lparr>pinCnt := (pinCnt bm)[pid - 1 := pinCnt bm ! (pid - 1) + 1]\<rparr>)
      else None)"

definition allocPage :: "BufMgr \<Rightarrow> PageId \<times> BufMgr" where
  "allocPage bm =
     (let pid = length (pages bm) + 1
      in (pid, bm\<lparr>pages := pages bm @ [RawPage], pinCnt := pinCnt bm @ [1],
                  dirty := dirty bm @ [False]\<rparr>))"

definition unPinPage :: "BufMgr \<Rightarrow> PageId \<Rightarrow> bool \<Rightarrow> BufMgr" where
  "unPinPage bm pid d =
     (if validPage bm pid
      then bm\<lparr>pinCnt := (pinCnt bm)[pid - 1 := pinCnt bm ! (pid - 1) - 1],
              dirty := (dirty bm)[pid - 1 := (dirty bm ! (pid - 1) \<or> d)]\<rparr>
      else bm)"

section \<open>Node allocation\<close>

definition emptyNonLeaf :: "nat \<Rightarrow> NonLeafNodeInt" where
  "emptyNonLeaf M =
     \<lparr>NonLeafNodeInt.level = 0, keyArray = replicate M 0, pageNoArray = replicate (M + 1) 0\<rparr>"

definition emptyLeaf :: "nat \<Rightarrow> LeafNodeInt" where
  "emptyLeaf L =
     \<lparr>LeafNodeInt.level = - 1, keyArray = replicate L 0,
      ridArray = replicate L \<lparr>page_number = 0, slot_number = 0\<rparr>, rightSibPageNo = 0\<rparr>"

definition allocNonLeaf :: "nat \<Rightarrow> BufMgr \<Rightarrow> PageId \<times> NonLeafNodeInt \<times> BufMgr" where
  "allocNonLeaf M bm =
     (let (pid, bm1) = allocPage bm
      in (pid, emptyNonLeaf M, putPage bm1 pid (NonLeafPage (emptyNonLeaf M))))"

definition allocLeaf :: "nat \<Rightarrow> BufMgr \<Rightarrow> PageId \<times> LeafNodeInt \<times> BufMgr" where
  "allocLeaf L bm =
     (let (pid, bm1) = allocPage bm
      in (pid, emptyLeaf L, putPage bm1 pid (LeafPage (emptyLeaf L))))"

section \<open>Insertion into a leaf\<close>

text \<open>
  The loop of \<open>insertToLeaf\<close> that tests whether the leaf is full,
  \<^verbatim>\<open>while(node->ridArray[next].page_number != 0 && next < INTARRAYLEAFSIZE) next++;\<close>
  The second component logs, in order, every index at which the loop condition reads
  \<open>ridArray\<close>; \<open>junk\<close> is what a read past the end of \<open>ridArray\<close> gives.
\<close>

function insertToLeaf_next ::
  "nat \<Rightarrow> RecordId \<Rightarrow> LeafNodeInt \<Rightarrow> nat \<Rightarrow> nat list \<Rightarrow> nat \<times> nat list" where
  "insertToLeaf_next L junk node next reads =
     (if page_number (peek junk (ridArray node) next) \<noteq> 0 \<and> next < L
      then insertToLeaf_next L junk node (next + 1) (reads @ [next])
      else (next, reads @ [next]))"
  by pat_completeness auto
termination
  by (relation "measure (\<lambda>(L, junk, node, next, reads). L - next)") auto

declare insertToLeaf_next.simps [simp del]

text \<open>The shifting loop \<^verbatim>\<open>while(j > i) { key[j] = key[j-1]; rid[j] = rid[j-1]; j--; }\<close>.\<close>

function leaf_shift :: "LeafNodeInt \<Rightarrow> nat \<Rightarrow> nat \<Rightarrow> LeafNodeInt" where
  "leaf_shift node i j =
     (if j > i
      then leaf_shift
             (node\<lparr>LeafNodeInt.keyArray := (LeafNodeInt.keyArray node)[j := LeafNodeInt.keyArray node ! (j - 1)],
                   ridArray := (ridArray node)[j := ridArray node ! (j - 1)]\<rparr>) i (j - 1)
      else node)"
  by pat_completeness auto
termination
  by (relation "measure (\<lambda>(node, i, j). j)") auto

declare leaf_shift.simps [simp del]

text \<open>The loop of \<open>insertToLeaf\<close> that finds the slot of the new key and stores it.\<close>

function insertToLeaf_place :: "nat \<Rightarrow> LeafNodeInt \<Rightarrow> int \<Rightarrow> RecordId \<Rightarrow> nat \<Rightarrow> LeafNodeInt" where
  "insertToLeaf_place L node key rid i =
     (if i < L
      then (if page_number (ridArray node ! i) = 0 \<or> LeafNodeInt.keyArray node ! i > key
            then (let node' = leaf_shift node i (L - 1)
                  in node'\<lparr>LeafNodeInt.keyArray := (LeafNodeInt.keyArray node')[i := key],
                           ridArray := (ridArray node')[i := rid]\<rparr>)
            else insertToLeaf_place L node key rid (i + 1))
      else node)"
  by pat_completeness auto
termination
  by (relation "measure (\<lambda>(L, node, key, rid, i). L - i)") auto

declare insertToLeaf_place.simps [simp del]

section \<open>Splitting a leaf\<close>

text \<open>
  The first loop of \<open>splitLeafNode\<close> builds \<open>tempKey\<close> and \<open>tempRid\<close> (\<open>L + 1\<close> slots
  each) from the leaf and the new pair. The C++ arrays start uninitialised; the model
  starts them at 0. A step that stores the new pair first (\<open>i++\<close> inside the body)
  advances \<open>i\<close> by two.
\<close>

function splitLeafNode_merge ::
  "nat \<Rightarrow> LeafNodeInt \<Rightarrow> int \<Rightarrow> RecordId \<Rightarrow> nat \<Rightarrow> nat \<Rightarrow> int list \<times> RecordId list
     \<Rightarrow> int list \<times> RecordId list" where
  "splitLeafNode_merge L node key rid i j (tempKey, tempRid) =
     (if i \<le> L
      then (if j = L \<or> page_number (ridArray node ! j) = 0
            then (tempKey[j := key], tempRid[j := rid])
            else if j = i \<and> key < LeafNodeInt.keyArray node ! i
            then splitLeafNode_merge L node key rid (i + 2) (j + 1)
                   (tempKey[i := key, i + 1 := LeafNodeInt.keyArray node ! j],
                    tempRid[i := rid, i + 1 := ridArray node ! j])
            else splitLeafNode_merge L node key rid (i + 1) (j + 1)
                   (tempKey[i := LeafNodeInt.keyArray node ! j], tempRid[i := ridArray node ! j]))
      else (tempKey, tempRid))"
  by pat_completeness auto
termination
  by (relation "measure (\<lambda>(L, node, key, rid, i, j, t). L + 1 - i)") auto

declare splitLeafNode_merge.simps [simp del]

definition splitLeafNode_temp :: "nat \<Rightarrow> LeafNodeInt \<Rightarrow> int \<Rightarrow> RecordId \<Rightarrow> int list \<times> RecordId list" where
  "splitLeafNode_temp L node key rid =
     splitLeafNode_merge L node key rid 0 0
       (replicate (L + 1) 0, replicate (L + 1) \<lparr>page_number = 0, slot_number = 0\<rparr>)"

text \<open>
  The second loop of \<open>splitLeafNode\<close>, \<open>i\<close> from \<open>L / 2\<close> to \<open>L\<close>: it clears the page
  number of slot \<open>i\<close> of the old leaf and copies \<open>temp[i]\<close> into the new leaf.
\<close>

function splitLeafNode_move ::
  "nat \<Rightarrow> int list \<Rightarrow> RecordId list \<Rightarrow> nat \<Rightarrow> LeafNodeInt \<times> LeafNodeInt
     \<Rightarrow> LeafNodeInt \<times> LeafNodeInt" where
  "splitLeafNode_move L tempKey tempRid i (node, newNode) =
     (if i \<le> L
      then splitLeafNode_move L tempKey tempRid (i + 1)
             ((if i < L
               then node\<lparr>ridArray := (ridArray node)[i := (ridArray node ! i)\<lparr>page_number := 0\<rparr>]\<rparr>
               else node),
              newNode\<lparr>ridArray := (ridArray newNode)[i - L div 2 := tempRid ! i],
                      LeafNodeInt.keyArray := (LeafNodeInt.keyArray newNode)[i - L div 2 := tempKey ! i]\<rparr>)
      else (node, newNode))"
  by pat_completeness auto
termination
  by (relation "measure (\<lambda>(L, tk, tr, i, n). L + 1 - i)") auto

declare splitLeafNode_move.simps [simp del]

definition splitLeafNode ::
  "nat \<Rightarrow> int \<Rightarrow> RecordId \<Rightarrow> PageId \<Rightarrow> BufMgr \<Rightarrow> (error + int \<times> PageId) \<times> BufMgr" where
  "splitLeafNode L key rid pid bm =
     (case readPage bm pid of
        None \<Rightarrow> (Inl InvalidPageException, bm)
      | Some (LeafPage node, bm1) \<Rightarrow>
          (let (tempKey, tempRid) = splitLeafNode_temp L node key rid;
               (newPid, newNode0, bm2) = allocLeaf L bm1;
               (node1, newNode1) = splitLeafNode_move L tempKey tempRid (L div 2) (node, newNode0);
               newNode2 = newNode1\<lparr>rightSibPageNo := rightSibPageNo node1\<rparr>;
               node2 = node1\<lparr>rightSibPageNo := newPid\<rparr>;
               bm3 = putPage (putPage bm2 newPid (LeafPage newNode2)) pid (LeafPage node2);
               bm4 = unPinPage bm3 pid True;
               bm5 = unPinPage bm4 newPid True
           in (Inr (tempKey ! (L div 2), newPid), bm5))
      | Some (_, bm1) \<Rightarrow> (Inl BadCast, bm1))"

text \<open>
  \<open>insertToLeaf\<close> runs the fullness loop with a fixed value for the read past the
  end; \<open>insertToLeaf_next_junk\<close> below shows that the loop's result is the same for
  every such value.
\<close>

definition insertToLeaf ::
  "nat \<Rightarrow> int \<Rightarrow> RecordId \<Rightarrow> PageId \<Rightarrow> BufMgr \<Rightarrow> (error + (int \<times> PageId) option) \<times> BufMgr" where
  "insertToLeaf L key rid pid bm =
     (case readPage bm pid of
        None \<Rightarrow> (Inl InvalidPageException, bm)
      | Some (LeafPage node, bm1) \<Rightarrow>
          (if fst (insertToLeaf_next L \<lparr>page_number = 0, slot_number = 0\<rparr> node 0 []) = L
           then (case splitLeafNode L key rid pid (unPinPage bm1 pid True) of
                   (Inl e, bm2) \<Rightarrow> (Inl e, bm2)
                 | (Inr mk, bm2) \<Rightarrow> (Inr (Some mk), bm2))
           else if page_number (ridArray node ! 0) = 0
           then (Inr None,
                 unPinPage
                   (putPage bm1 pid
                      (LeafPage (node\<lparr>LeafNodeInt.keyArray := (LeafNodeInt.keyArray node)[0 := key],
                                       ridArray := (ridArray node)[0 := rid]\<rparr>))) pid True)
           else (Inr None,
                 unPinPage (putPage bm1 pid (LeafPage (insertToLeaf_place L node key rid 0))) pid True))
      | Some (_, bm1) \<Rightarrow> (Inl BadCast, bm1))"

section \<open>Descent through a non-leaf node\<close>

text \<open>
  \<^verbatim>\<open>while(node->pageNoArray[idx+1] != 0 && key > node->keyArray[idx] && idx < INTARRAYNONLEAFSIZE){idx++;}\<close>
  The second component logs, in order, every index \<open>idx + 1\<close> at which the loop
  condition reads \<open>pageNoArray\<close>. \<open>junkPid\<close> and \<open>junkKey\<close> are what reads past the end of
  \<open>pageNoArray\<close> and of \<open>keyArray\<close> give. \<open>findNonLeafIndex\<close> runs the loop with fixed
  values for them; \<open>findNonLeafIndex_loop_junk\<close> below shows that the loop's result is
  the same for all values.
\<close>

function findNonLeafIndex_loop ::
  "nat \<Rightarrow> PageId \<Rightarrow> int \<Rightarrow> NonLeafNodeInt \<Rightarrow> int \<Rightarrow> nat \<Rightarrow> nat list \<Rightarrow> nat \<times> nat list" where
  "findNonLeafIndex_loop M junkPid junkKey node key idx reads =
     (if peek junkPid (pageNoArray node) (idx + 1) \<noteq> 0
         \<and> key > peek junkKey (NonLeafNodeInt.keyArray node) idx \<and> idx < M
      then findNonLeafIndex_loop M junkPid junkKey node key (idx + 1) (reads @ [idx + 1])
      else (idx, reads @ [idx + 1]))"
  by pat_completeness auto
termination
  by (relation "measure (\<lambda>(M, junkPid, junkKey, node, key, idx, reads). M - idx)") auto

declare findNonLeafIndex_loop.simps [simp del]

definition findNonLeafIndex :: "nat \<Rightarrow> NonLeafNodeInt \<Rightarrow> int \<Rightarrow> nat" where
  "findNonLeafIndex M node key = fst (findNonLeafIndex_loop M 0 0 node key 0 [])"

section \<open>Insertion into a non-leaf node\<close>

text \<open>
  \<^verbatim>\<open>while(i < INTARRAYNONLEAFSIZE && node->pageNoArray[i+1] != 0 && node->keyArray[i] <= key) i++;\<close>
\<close>

function insertToNonLeafNode_find :: "nat \<Rightarrow> NonLeafNodeInt \<Rightarrow> int \<Rightarrow> nat \<Rightarrow> nat" where
  "insertToNonLeafNode_find M node key i =
     (if i < M \<and> pageNoArray node ! (i + 1) \<noteq> 0 \<and> NonLeafNodeInt.keyArray node ! i \<le> key
      then insertToNonLeafNode_find M node key (i + 1)
      else i)"
  by pat_completeness auto
termination
  by (relation "measure (\<lambda>(M, node, key, i). M - i)") auto

declare insertToNonLeafNode_find.simps [simp del]

text \<open>\<^verbatim>\<open>while(j > i) { key[j] = key[j-1]; pageNo[j+1] = pageNo[j]; j--; }\<close>\<close>

function nonLeaf_shift :: "NonLeafNodeInt \<Rightarrow> nat \<Rightarrow> nat \<Rightarrow> NonLeafNodeInt" where
  "nonLeaf_shift node i j =
     (if j > i
      then nonLeaf_shift
             (node\<lparr>NonLeafNodeInt.keyArray :=
                      (NonLeafNodeInt.keyArray node)[j := NonLeafNodeInt.keyArray node ! (j - 1)],
                   pageNoArray := (pageNoArray node)[j + 1 := pageNoArray node ! j]\<rparr>) i (j - 1)
      else node)"
  by pat_completeness auto
termination
  by (relation "measure (\<lambda>(node, i, j). j)") auto

declare nonLeaf_shift.simps [simp del]

section \<open>Splitting a non-leaf node\<close>

text \<open>
  The first loop of \<open>splitNonLeafNode\<close>. The source declares
  \<^verbatim>\<open>int tempKey[INTARRAYNONLEAFSIZE+1], tempPid[INTARRAYNONLEAFSIZE+1];\<close>
  and writes \<open>tempPid[i+1]\<close> for \<open>i\<close> up to \<open>M\<close>, one slot past the declared end of
  \<open>tempPid\<close>, and reads that slot back in the second loop. The model gives \<open>tempPid\<close> the
  \<open>M + 2\<close> slots that the loops use. \<open>sonPid\<close> is the page of the new child, \<open>pid\<close> the
  page of the node being split.
\<close>

function splitNonLeafNode_merge ::
  "nat \<Rightarrow> NonLeafNodeInt \<Rightarrow> int \<Rightarrow> PageId \<Rightarrow> PageId \<Rightarrow> nat \<Rightarrow> nat \<Rightarrow> int list \<times> PageId list
     \<Rightarrow> int list \<times> PageId list" where
  "splitNonLeafNode_merge M node key sonPid pid i j (tempKey, tempPid) =
     (if i \<le> M
      then (if j = M \<or> pageNoArray node ! (j + 1) = 0
            then (tempKey[j := key], tempPid[j + 1 := pid])
            else if j = i \<and> key < NonLeafNodeInt.keyArray node ! i
            then splitNonLeafNode_merge M node key sonPid pid (i + 2) (j + 1)
                   (tempKey[i := key, i + 1 := NonLeafNodeInt.keyArray node ! j],
                    tempPid[i + 1 := sonPid, i + 2 := pageNoArray node ! (j + 1)])
            else splitNonLeafNode_merge M node key sonPid pid (i + 1) (j + 1)
                   (tempKey[i := NonLeafNodeInt.keyArray node ! j],
                    tempPid[i + 1 := pageNoArray node ! (j + 1)]))
      else (tempKey, tempPid))"
  by pat_completeness auto
termination
  by (relation "measure (\<lambda>(M, node, key, sonPid, pid, i, j, t). M + 1 - i)") auto

declare splitNonLeafNode_merge.simps [simp del]

definition splitNonLeafNode_temp ::
  "nat \<Rightarrow> NonLeafNodeInt \<Rightarrow> int \<Rightarrow> PageId \<Rightarrow> PageId \<Rightarrow> int list \<times> PageId list" where
  "splitNonLeafNode_temp M node key sonPid pid =
     splitNonLeafNode_merge M node key sonPid pid 0 0
       (replicate (M + 1) 0, (replicate (M + 2) 0)[0 := pageNoArray node ! 0])"

text \<open>
  The second loop, \<open>i\<close> from \<open>M / 2 + 1\<close> to \<open>M + 1\<close>. The store
  \<open>node->pageNoArray[i] = 0\<close> at \<open>i = M + 1\<close> is past the end of \<open>pageNoArray\<close>
  (\<open>M + 1\<close> slots); in the model a list update past the end changes nothing.
\<close>

function splitNonLeafNode_move ::
  "nat \<Rightarrow> int list \<Rightarrow> PageId list \<Rightarrow> nat \<Rightarrow> NonLeafNodeInt \<times> NonLeafNodeInt
     \<Rightarrow> NonLeafNodeInt \<times> NonLeafNodeInt" where
  "splitNonLeafNode_move M tempKey tempPid i (node, newNode) =
     (if i \<le> M + 1
      then splitNonLeafNode_move M tempKey tempPid (i + 1)
             (node\<lparr>pageNoArray := (pageNoArray node)[i := 0]\<rparr>,
              (let newNode' = newNode\<lparr>pageNoArray := (pageNoArray newNode)[i - M div 2 - 1 := tempPid ! i]\<rparr>
               in if i \<noteq> M + 1
                  then newNode'\<lparr>NonLeafNodeInt.keyArray :=
                                  (NonLeafNodeInt.keyArray newNode')[i - M div 2 - 1 := tempKey ! i]\<rparr>
                  else newNode'))
      else (node, newNode))"
  by pat_completeness auto
termination
  by (relation "measure (\<lambda>(M, tk, tp, i, n). M + 2 - i)") auto

declare splitNonLeafNode_move.simps [simp del]

definition splitNonLeafNode ::
  "nat \<Rightarrow> int \<Rightarrow> PageId \<Rightarrow> PageId \<Rightarrow> BufMgr \<Rightarrow> (error + int \<times> PageId) \<times> BufMgr" where
  "splitNonLeafNode M key sonPid pid bm =
     (case readPage bm pid of
        None \<Rightarrow> (Inl InvalidPageException, bm)
      | Some (NonLeafPage node, bm1) \<Rightarrow>
          (let (tempKey, tempPid) = splitNonLeafNode_temp M node key sonPid pid;
               midKey = tempKey ! (M div 2);
               (newPid, newNode0, bm2) = allocNonLeaf M bm1;
               newNode1 = newNode0\<lparr>NonLeafNodeInt.level := NonLeafNodeInt.level node\<rparr>;
               (node2, newNode2) = splitNonLeafNode_move M tempKey tempPid (M div 2 + 1) (node, newNode1);
               bm3 = putPage (putPage bm2 newPid (NonLeafPage newNode2)) pid (NonLeafPage node2);
               bm4 = unPinPage bm3 newPid True;
               bm5 = unPinPage bm4 pid True
           in (Inr (midKey, newPid), bm5))
      | Some (_, bm1) \<Rightarrow> (Inl BadCast, bm1))"

definition insertToNonLeafNode ::
  "nat \<Rightarrow> int \<Rightarrow> PageId \<Rightarrow> PageId \<Rightarrow> BufMgr \<Rightarrow> (error + (int \<times> PageId) option) \<times> BufMgr" where
  "insertToNonLeafNode M key sonPid pid bm =
     (case readPage bm pid of
        None \<Rightarrow> (Inl InvalidPageException, bm)
      | Some (NonLeafPage node, bm1) \<Rightarrow>
          (if pageNoArray node ! M \<noteq> 0
           then (case splitNonLeafNode M key sonPid pid (unPinPage bm1 pid True) of
                   (Inl e, bm2) \<Rightarrow> (Inl e, bm2)
                 | (Inr mk, bm2) \<Rightarrow> (Inr (Some mk), bm2))
           else (let i = insertToNonLeafNode_find M node key 0;
                     node1 = nonLeaf_shift node i (M - 1);
                     node2 = node1\<lparr>NonLeafNodeInt.keyArray := (NonLeafNodeInt.keyArray node1)[i := key],
                                  pageNoArray := (pageNoArray node1)[i + 1 := sonPid]\<rparr>
                 in (Inr None, unPinPage (putPage bm1 pid (NonLeafPage node2)) pid True)))
      | Some (_, bm1) \<Rightarrow> (Inl BadCast, bm1))"

section \<open>The index object and insertEntry\<close>

text \<open>
  The fields of \<open>BTreeIndex\<close> that the code uses. \<open>bufMgr\<close> holds the state of the
  buffer manager that the C++ field points to; \<open>file'\<close> (the field \<open>file\<close>) is the name
  of the open blob file (\<open>None\<close> for the null pointer); \<open>currentPageData\<close> points into
  the frame of a page and is modelled by the number of that page (\<open>None\<close> for the null
  pointer). The member functions above and \<open>insertNode\<close> use no field but \<open>bufMgr\<close>
  and \<open>file\<close>, and take the buffer manager in place of the object.
\<close>

record BTreeIndex =
  file' :: "string option"
  bufMgr :: BufMgr
  headerPageNum :: PageId
  rootPageNum :: PageId
  scanExecuting :: bool
  nextEntry :: int
  currentPageNum :: PageId
  currentPageData :: "PageId option"
  lowValInt :: int
  highValInt :: int
  lowOp :: Operator
  highOp :: Operator

text \<open>The \<open>level\<close> field, which both node structs have at the same place.\<close>

fun pageLevel :: "Page \<Rightarrow> int option" where
  "pageLevel (LeafPage n) = Some (LeafNodeInt.level n)"
| "pageLevel (NonLeafPage n) = Some (NonLeafNodeInt.level n)"
| "pageLevel _ = None"

text \<open>
  \<open>insertNode\<close> recurses along child pointers stored in pages, so the model takes
  fuel: \<open>None\<close> means that the recursion did not come back within the fuel. The
  result \<open>Some (midKey, newSonPageId)\<close> is the C++ result \<open>true\<close> together with the two
  reference parameters, \<open>None\<close> is \<open>false\<close>.
\<close>

fun insertNode ::
  "nat \<Rightarrow> nat \<Rightarrow> nat \<Rightarrow> int \<Rightarrow> RecordId \<Rightarrow> PageId \<Rightarrow> BufMgr
     \<Rightarrow> ((error + (int \<times> PageId) option) \<times> BufMgr) option" where
  "insertNode 0 L M key rid pid bm = None"
| "insertNode (Suc fuel) L M key rid pid bm =
     (case readPage bm pid of
        None \<Rightarrow> Some (Inl InvalidPageException, bm)
      | Some (curPage, bm1) \<Rightarrow>
          (case pageLevel curPage of
             None \<Rightarrow> Some (Inl BadCast, bm1)
           | Some lv \<Rightarrow>
               if lv = - 1
               then Some (insertToLeaf L key rid pid (unPinPage bm1 pid False))
               else (case curPage of
                       NonLeafPage nonLeaf \<Rightarrow>
                         (let idx = findNonLeafIndex M nonLeaf key;
                              sonPid = pageNoArray nonLeaf ! idx;
                              bm2 = unPinPage bm1 pid True
                          in case insertNode fuel L M key rid sonPid bm2 of
                               None \<Rightarrow> None
                             | Some (Inl e, bm3) \<Rightarrow> Some (Inl e, bm3)
                             | Some (Inr None, bm3) \<Rightarrow> Some (Inr None, bm3)
                             | Some (Inr (Some (sonMidKey, sonPageId)), bm3) \<Rightarrow>
                                 Some (insertToNonLeafNode M sonMidKey sonPageId pid bm3))
                     | _ \<Rightarrow> Some (Inl BadCast, bm1))))"

definition updateRootPageNo :: "BTreeIndex \<Rightarrow> (error + unit) \<times> BTreeIndex" where
  "updateRootPageNo this =
     (case readPage (bufMgr this) (headerPageNum this) of
        None \<Rightarrow> (Inl InvalidPageException, this)
      | Some (MetaPage header, bm1) \<Rightarrow>
          (Inr (),
           this\<lparr>bufMgr :=
                  unPinPage
                    (putPage bm1 (headerPageNum this) (MetaPage (header\<lparr>rootPageNo := rootPageNum this\<rparr>)))
                    (headerPageNum this) True\<rparr>)
      | Some (_, bm1) \<Rightarrow> (Inl BadCast, this\<lparr>bufMgr := bm1\<rparr>))"

text \<open>
  The block that \<open>insertEntry\<close> runs in both of its branches when the root has split;
  the branches differ only in the level they store (1 after a leaf root, 0 after a
  non-leaf root), which is the parameter \<open>lvl\<close>.
\<close>

definition insertEntry_newRoot ::
  "nat \<Rightarrow> int \<Rightarrow> int \<Rightarrow> PageId \<Rightarrow> PageId \<Rightarrow> BTreeIndex \<Rightarrow> (error + unit) \<times> BTreeIndex" where
  "insertEntry_newRoot M lvl midKey pid newPid this =
     (let (rootPid, newRoot0, bm1) = allocNonLeaf M (bufMgr this);
          newRoot = newRoot0\<lparr>NonLeafNodeInt.level := lvl,
                             NonLeafNodeInt.keyArray := (NonLeafNodeInt.keyArray newRoot0)[0 := midKey],
                             pageNoArray := (pageNoArray newRoot0)[0 := pid, 1 := newPid]\<rparr>;
          bm2 = unPinPage (putPage bm1 rootPid (NonLeafPage newRoot)) rootPid True
      in updateRootPageNo (this\<lparr>bufMgr := bm2, rootPageNum := rootPid\<rparr>))"

definition insertEntry ::
  "nat \<Rightarrow> nat \<Rightarrow> nat \<Rightarrow> int \<Rightarrow> RecordId \<Rightarrow> BTreeIndex \<Rightarrow> ((error + unit) \<times> BTreeIndex) option" where
  "insertEntry fuel L M key rid this =
     (let pid = rootPageNum this
      in case readPage (bufMgr this) pid of
           None \<Rightarrow> Some (Inl InvalidPageException, this)
         | Some (curPage, bm1) \<Rightarrow>
             (case pageLevel curPage of
                None \<Rightarrow> Some (Inl BadCast, this\<lparr>bufMgr := bm1\<rparr>)
              | Some lv \<Rightarrow>
                  if lv = - 1
                  then (case insertToLeaf L key rid pid (unPinPage bm1 pid True) of
                          (Inl e, bm2) \<Rightarrow> Some (Inl e, this\<lparr>bufMgr := bm2\<rparr>)
                        | (Inr None, bm2) \<Rightarrow> Some (Inr (), this\<lparr>bufMgr := bm2\<rparr>)
                        | (Inr (Some (midKey, newPid)), bm2) \<Rightarrow>
                            Some (insertEntry_newRoot M 1 midKey pid newPid (this\<lparr>bufMgr := bm2\<rparr>)))
                  else (case insertNode fuel L M key rid (rootPageNum this) (unPinPage bm1 pid True) of
                          None \<Rightarrow> None
                        | Some (Inl e, bm2) \<Rightarrow> Some (Inl e, this\<lparr>bufMgr := bm2\<rparr>)
                        | Some (Inr None, bm2) \<Rightarrow> Some (Inr (), this\<lparr>bufMgr := bm2\<rparr>)
                        | Some (Inr (Some (midKey, newPid)), bm2) \<Rightarrow>
                            Some (insertEntry_newRoot M 0 midKey pid newPid (this\<lparr>bufMgr := bm2\<rparr>)))))"

section \<open>Range scan\<close>

definition endScan :: "BTreeIndex \<Rightarrow> (error + unit) \<times> BTreeIndex" where
  "endScan this =
     (if \<not> scanExecuting this
      then (Inl ScanNotInitializedException, this)
      else (Inr (),
            this\<lparr>scanExecuting := False, nextEntry := - 1, currentPageData := None,
                 currentPageNum := 0\<rparr>))"

text \<open>\<open>recursiveScanPageId\<close> follows child pointers like \<open>insertNode\<close>, and takes fuel.\<close>

fun recursiveScanPageId :: "nat \<Rightarrow> nat \<Rightarrow> BTreeIndex \<Rightarrow> ((error + unit) \<times> BTreeIndex) option" where
  "recursiveScanPageId 0 M this = None"
| "recursiveScanPageId (Suc fuel) M this =
     (case readPage (bufMgr this) (currentPageNum this) of
        None \<Rightarrow> Some (Inl InvalidPageException, this)
      | Some (pg, bm1) \<Rightarrow>
          (let this1 = this\<lparr>bufMgr := bm1, currentPageData := Some (currentPageNum this)\<rparr>
           in case pageLevel pg of
                None \<Rightarrow> Some (Inl BadCast, this1)
              | Some lv \<Rightarrow>
                  if lv = - 1
                  then Some (Inr (), this1\<lparr>bufMgr := unPinPage bm1 (currentPageNum this) False\<rparr>)
                  else (case pg of
                          NonLeafPage internal \<Rightarrow>
                            (let idx = findNonLeafIndex M internal (lowValInt this);
                                 nextPage = pageNoArray internal ! idx
                             in recursiveScanPageId fuel M
                                  (this1\<lparr>bufMgr := unPinPage bm1 (currentPageNum this) False,
                                         currentPageNum := nextPage\<rparr>))
                        | _ \<Rightarrow> Some (Inl BadCast, this1))))"

text \<open>
  The \<open>for\<close> loop of \<open>startScan\<close> over the slots of the leaf. It ends by \<open>break\<close> with a
  slot found, by running past the occupied slots, or by raising
  \<open>NoSuchKeyFoundException\<close>.
\<close>

datatype scan_pos = Found nat | EndOfLeaf | NoKey

function startScan_find ::
  "nat \<Rightarrow> LeafNodeInt \<Rightarrow> Operator \<Rightarrow> int \<Rightarrow> Operator \<Rightarrow> int \<Rightarrow> nat \<Rightarrow> scan_pos" where
  "startScan_find L leaf lowOp' lowVal highOp' highVal i =
     (if i < L
      then (let key = LeafNodeInt.keyArray leaf ! i
            in if page_number (ridArray leaf ! i) = 0 then EndOfLeaf
               else if lowOp' = GT \<and> key > lowVal then Found i
               else if lowOp' = GTE \<and> key \<ge> lowVal then Found i
               else if highOp' = LT \<and> key > highVal then NoKey
               else if highOp' = LTE \<and> key \<ge> highVal then NoKey
               else startScan_find L leaf lowOp' lowVal highOp' highVal (i + 1))
      else EndOfLeaf)"
  by pat_completeness auto
termination
  by (relation "measure (\<lambda>(L, leaf, lo, lv, ho, hv, i). L - i)") auto

declare startScan_find.simps [simp del]

text \<open>
  \<open>startScan\<close> in two parts: \<open>startScan_position\<close> is the part of the function after
  the call of \<open>recursiveScanPageId\<close> (it pins the leaf, looks for the first slot and
  may move to the right sibling), \<open>startScan\<close> is the part before it.
\<close>

definition startScan_position :: "nat \<Rightarrow> BTreeIndex \<Rightarrow> (error + unit) \<times> BTreeIndex" where
  "startScan_position L this =
     (case readPage (bufMgr this) (currentPageNum this) of
        None \<Rightarrow> (Inl InvalidPageException, this)
      | Some (LeafPage leaf, bm1) \<Rightarrow>
          (let cur = currentPageNum this;
               this1 = this\<lparr>bufMgr := bm1, currentPageData := Some cur\<rparr>
           in case startScan_find L leaf (lowOp this1) (lowValInt this1)
                     (highOp this1) (highValInt this1) 0 of
                Found i \<Rightarrow> (Inr (), this1\<lparr>nextEntry := int i, scanExecuting := True\<rparr>)
              | NoKey \<Rightarrow>
                  (Inl NoSuchKeyFoundException, this1\<lparr>bufMgr := unPinPage bm1 cur False\<rparr>)
              | EndOfLeaf \<Rightarrow>
                  if rightSibPageNo leaf = 0
                  then (Inl NoSuchKeyFoundException, this1\<lparr>bufMgr := unPinPage bm1 cur False\<rparr>)
                  else (let nextPage = rightSibPageNo leaf;
                            bm2 = unPinPage bm1 cur False
                        in case readPage bm2 nextPage of
                             None \<Rightarrow>
                               (Inl InvalidPageException,
                                this1\<lparr>bufMgr := bm2, currentPageNum := nextPage\<rparr>)
                           | Some (_, bm3) \<Rightarrow>
                               (Inr (),
                                this1\<lparr>bufMgr := bm3, currentPageNum := nextPage,
                                      currentPageData := Some nextPage,
                                      nextEntry := 0, scanExecuting := True\<rparr>)))
      | Some (_, bm1) \<Rightarrow> (Inl BadCast, this\<lparr>bufMgr := bm1\<rparr>))"

definition startScan ::
  "nat \<Rightarrow> nat \<Rightarrow> nat \<Rightarrow> int \<Rightarrow> Operator \<Rightarrow> int \<Rightarrow> Operator \<Rightarrow> BTreeIndex
     \<Rightarrow> ((error + unit) \<times> BTreeIndex) option" where
  "startScan fuel L M lowValParm lowOpParm highValParm highOpParm this =
     (let this1 = this\<lparr>lowValInt := lowValParm, highValInt := highValParm,
                       lowOp := lowOpParm, highOp := highOpParm\<rparr>
      in if lowOp this1 \<noteq> GT \<and> lowOp this1 \<noteq> GTE then Some (Inl BadOpcodesException, this1)
         else if highOp this1 \<noteq> LT \<and> highOp this1 \<noteq> LTE then Some (Inl BadOpcodesException, this1)
         else if lowValInt this1 > highValInt this1 then Some (Inl BadScanrangeException, this1)
         else
           (case (if scanExecuting this1 then endScan this1 else (Inr (), this1)) of
              (Inl e, this2) \<Rightarrow> Some (Inl e, this2)
            | (Inr _, this2) \<Rightarrow>
                (case recursiveScanPageId fuel M (this2\<lparr>currentPageNum := rootPageNum this2\<rparr>) of
                   None \<Rightarrow> None
                 | Some (Inl e, this3) \<Rightarrow> Some (Inl e, this3)
                 | Some (Inr _, this3) \<Rightarrow> Some (startScan_position L this3))))"

text \<open>
  \<open>scanNext\<close> returns its outcome, the value it stored in the reference parameter
  \<open>outRid\<close> (\<open>None\<close> when it stored nothing) and the object afterwards. It reads the
  leaf through \<open>currentPageData\<close>, at slot \<open>nextEntry\<close>, without looking at the pin
  count. A \<open>nextEntry\<close> outside the \<open>L\<close> slots is the fault \<open>OutOfBounds\<close>: the source
  would compare a value from outside \<open>keyArray\<close> with the upper bound.
\<close>

definition scanNext :: "nat \<Rightarrow> BTreeIndex \<Rightarrow> (error + unit) \<times> RecordId option \<times> BTreeIndex" where
  "scanNext L this =
     (if \<not> scanExecuting this then (Inl ScanNotInitializedException, None, this)
      else
        (case currentPageData this of
           None \<Rightarrow> (Inl NullPointer, None, this)
         | Some frame \<Rightarrow>
             if \<not> validPage (bufMgr this) frame then (Inl BadCast, None, this)
             else if nextEntry this < 0 \<or> int L \<le> nextEntry this then (Inl OutOfBounds, None, this)
             else
               (case getPage (bufMgr this) frame of
                  LeafPage currentNode \<Rightarrow>
                    (let outRid = ridArray currentNode ! nat (nextEntry this);
                         val = LeafNodeInt.keyArray currentNode ! nat (nextEntry this)
                     in if val > highValInt this \<or> (val = highValInt this \<and> highOp this = LT)
                        then (Inl IndexScanCompletedException, Some outRid,
                              this\<lparr>bufMgr := unPinPage (bufMgr this) (currentPageNum this) False\<rparr>)
                        else
                          (let this1 = this\<lparr>nextEntry := nextEntry this + 1\<rparr>
                           in if nextEntry this1 = int L
                                 \<or> page_number (ridArray currentNode ! nat (nextEntry this1)) = 0
                              then
                                (if rightSibPageNo currentNode = 0
                                 then (Inl IndexScanCompletedException, Some outRid,
                                       this1\<lparr>bufMgr := unPinPage (bufMgr this1) (currentPageNum this1) False\<rparr>)
                                 else
                                   (let nextPageNum = rightSibPageNo currentNode;
                                        bm1 = unPinPage (bufMgr this1) (currentPageNum this1) False
                                    in case readPage bm1 nextPageNum of
                                         None \<Rightarrow>
                                           (Inl InvalidPageException, Some outRid,
                                            this1\<lparr>bufMgr := bm1, currentPageNum := nextPageNum\<rparr>)
                                       | Some (_, bm2) \<Rightarrow>
                                           (Inr (), Some outRid,
                                            this1\<lparr>bufMgr := bm2, currentPageNum := nextPageNum,
                                                  currentPageData := Some nextPageNum, nextEntry := 0\<rparr>)))
                              else (Inr (), Some outRid, this1)))
                | _ \<Rightarrow> (Inl BadCast, None, this))))"

section \<open>Constructor and destructor\<close>

text \<open>The decimal text that \<open>idxStr << attrByteOffset\<close> appends.\<close>

function decimal_nat :: "nat \<Rightarrow> string" where
  "decimal_nat n =
     (if n < 10 then [''0123456789'' ! n]
      else decimal_nat (n div 10) @ [''0123456789'' ! (n mod 10)])"
  by pat_completeness auto
termination
  by (relation "measure (\<lambda>n. n)") auto

declare decimal_nat.simps [simp del]

definition decimal :: "int \<Rightarrow> string" where
  "decimal i = (if i < 0 then ''-'' @ decimal_nat (nat (- i)) else decimal_nat (nat i))"

text \<open>
  The bulk-load loop of the constructor: \<open>records\<close> are the record ids that the
  relation's \<open>FileScan\<close> yields, each with the integer read from its record at
  \<open>attrByteOffset\<close>; the end of the list is \<open>EndOfFileException\<close>.
\<close>

fun insertRecords ::
  "nat \<Rightarrow> nat \<Rightarrow> nat \<Rightarrow> (RecordId \<times> int) list \<Rightarrow> BTreeIndex \<Rightarrow> ((error + unit) \<times> BTreeIndex) option" where
  "insertRecords fuel L M [] this = Some (Inr (), this)"
| "insertRecords fuel L M ((outRid, key) # records) this =
     (case insertEntry fuel L M key outRid this of
        None \<Rightarrow> None
      | Some (Inl e, this1) \<Rightarrow> Some (Inl e, this1)
      | Some (Inr _, this1) \<Rightarrow> insertRecords fuel L M records this1)"

text \<open>
  The constructor. \<open>this0\<close> is the object before construction (the constructor leaves
  most scan fields as they are). \<open>existing\<close> is the outcome of opening the blob file
  \<open>outIndexName\<close>: \<open>None\<close> when \<open>BlobFile(outIndexName, false)\<close> raises
  \<open>FileNotFoundException\<close>, otherwise the buffer manager's view of that file, whose
  first page is page 1. \<open>flushFile\<close> is the buffer manager's flush, which is not part
  of the source at hand and may raise. The result carries \<open>outIndexName\<close>.
\<close>

definition BTreeIndex_ctor ::
  "nat \<Rightarrow> nat \<Rightarrow> nat \<Rightarrow> (BufMgr \<Rightarrow> error + BufMgr) \<Rightarrow> BufMgr option \<Rightarrow> (RecordId \<times> int) list
     \<Rightarrow> BTreeIndex \<Rightarrow> string \<Rightarrow> int \<Rightarrow> Datatype \<Rightarrow> ((error + unit) \<times> string \<times> BTreeIndex) option" where
  "BTreeIndex_ctor fuel L M flushFile existing records this0 relationName' attrByteOffset' attrType' =
     (let outIndexName = relationName' @ ''.'' @ decimal attrByteOffset';
          this1 = this0\<lparr>scanExecuting := False\<rparr>
      in case existing of
           Some bm \<Rightarrow>
             (let this2 = this1\<lparr>file' := Some outIndexName, bufMgr := bm, headerPageNum := 1\<rparr>
              in case readPage bm 1 of
                   None \<Rightarrow> Some (Inl InvalidPageException, outIndexName, this2)
                 | Some (MetaPage meta, bm1) \<Rightarrow>
                     (let meta1 = meta\<lparr>relationName := take 19 relationName',
                                       attrByteOffset := attrByteOffset',
                                       attrType := attrType'\<rparr>
                      in Some (Inr (), outIndexName,
                               this2\<lparr>rootPageNum := rootPageNo meta1,
                                     bufMgr := unPinPage (putPage bm1 1 (MetaPage meta1)) 1 False\<rparr>))
                 | Some (_, bm1) \<Rightarrow> Some (Inl BadCast, outIndexName, this2\<lparr>bufMgr := bm1\<rparr>))
         | None \<Rightarrow>
             (let bm0 = \<lparr>pages = [], pinCnt = [], dirty = []\<rparr>;
                  (headerPid, bm1) = allocPage bm0;
                  (rootPid, root, bm2) = allocLeaf L bm1;
                  meta = \<lparr>relationName = take 19 relationName', attrByteOffset = attrByteOffset',
                          attrType = attrType', rootPageNo = rootPid\<rparr>;
                  bm3 = unPinPage (unPinPage (putPage bm2 headerPid (MetaPage meta)) headerPid True)
                          rootPid True;
                  this2 = this1\<lparr>file' := Some outIndexName, bufMgr := bm3,
                                headerPageNum := headerPid, rootPageNum := rootPid\<rparr>
              in case insertRecords fuel L M records this2 of
                   None \<Rightarrow> None
                 | Some (Inl e, this3) \<Rightarrow> Some (Inl e, outIndexName, this3)
                 | Some (Inr _, this3) \<Rightarrow>
                     (case flushFile (bufMgr this3) of
                        Inl e \<Rightarrow> Some (Inl e, outIndexName, this3)
                      | Inr bm4 \<Rightarrow> Some (Inr (), outIndexName, this3\<lparr>bufMgr := bm4\<rparr>))))"

text \<open>
  The destructor has no \<open>try\<close> block: what \<open>flushFile\<close> raises leaves the destructor
  at that statement. The assignment \<open>bufMgr = nullptr\<close> has no counterpart in the
  model, whose \<open>bufMgr\<close> field is the manager's state.
\<close>

definition BTreeIndex_dtor ::
  "(BufMgr \<Rightarrow> error + BufMgr) \<Rightarrow> BTreeIndex \<Rightarrow> (error + unit) \<times> BTreeIndex" where
  "BTreeIndex_dtor flushFile this =
     (let this1 = this\<lparr>scanExecuting := False\<rparr>
      in case flushFile (bufMgr this1) of
           Inl e \<Rightarrow> (Inl e, this1)
         | Inr bm1 \<Rightarrow>
             (Inr (),
              this1\<lparr>bufMgr := bm1, file' := None, nextEntry := - 1, headerPageNum := 0,
                    rootPageNum := 0, currentPageNum := 0, currentPageData := None\<rparr>))"

text \<open>
  Two buffer managers to run the code with: one whose flush always succeeds and
  clears the dirty bits, and one that refuses to flush a file that has a pinned page.
\<close>

definition flushFile_plain :: "BufMgr \<Rightarrow> error + BufMgr" where
  "flushFile_plain bm = Inr (bm\<lparr>dirty := map (\<lambda>_. False) (dirty bm)\<rparr>)"

definition flushFile_pinned :: "BufMgr \<Rightarrow> error + BufMgr" where
  "flushFile_pinned bm =
     (if \<exists>c \<in> set (pinCnt bm). c \<noteq> 0
      then Inl PagePinnedException
      else Inr (bm\<lparr>dirty := map (\<lambda>_. False) (dirty bm)\<rparr>))"

text \<open>An object before construction.\<close>

definition blank :: BTreeIndex where
  "blank =
     \<lparr>file' = None, bufMgr = \<lparr>pages = [], pinCnt = [], dirty = []\<rparr>,
      headerPageNum = 0, rootPageNum = 0, scanExecuting = False, nextEntry = 0,
      currentPageNum = 0, currentPageData = None, lowValInt = 0, highValInt = 0,
      lowOp = LT, highOp = LT\<rparr>"

section \<open>A client of the scan interface\<close>

text \<open>
  A client calls the three scan operations in any order and goes on after an
  exception, with the object as the raising call left it. \<open>scan_run\<close> is the object
  after a list of calls; \<open>None\<close> means that a descent ran out of fuel.
\<close>

datatype scan_call = StartScan int Operator int Operator | ScanNext | EndScan

fun scan_step :: "nat \<Rightarrow> nat \<Rightarrow> nat \<Rightarrow> scan_call \<Rightarrow> BTreeIndex \<Rightarrow> BTreeIndex option" where
  "scan_step fuel L M (StartScan lowVal lo highVal hi) this =
     map_option snd (startScan fuel L M lowVal lo highVal hi this)"
| "scan_step fuel L M ScanNext this = Some (snd (snd (scanNext L this)))"
| "scan_step fuel L M EndScan this = Some (snd (endScan this))"

fun scan_run :: "nat \<Rightarrow> nat \<Rightarrow> nat \<Rightarrow> scan_call list \<Rightarrow> BTreeIndex \<Rightarrow> BTreeIndex option" where
  "scan_run fuel L M [] this = Some this"
| "scan_run fuel L M (c # cs) this =
     (case scan_step fuel L M c this of
        None \<Rightarrow> None
      | Some this1 \<Rightarrow> scan_run fuel L M cs this1)"

section \<open>Concrete indexes\<close>

text \<open>
  States that the code reaches with \<open>L = 2\<close> and \<open>M = 2\<close>, written out. \<open>index_0\<close> is
  the index that the constructor builds over an empty relation named \<open>rel\<close>, and
  \<open>index_n\<close> follows from it by \<open>insertEntry\<close> of the keys \<open>1, \<dots>, n\<close>, key \<open>k\<close> with the
  record id \<open>rid_of k\<close>. The lemmas of the section "Reaching the concrete indexes" run
  the code from each state to the next.
\<close>

definition rid_of :: "nat \<Rightarrow> RecordId" where
  "rid_of n = \<lparr>page_number = n, slot_number = n\<rparr>"

definition metaPage :: "PageId \<Rightarrow> Page" where
  "metaPage root =
     MetaPage \<lparr>relationName = ''rel'', attrByteOffset = 0, attrType = INTEGER, rootPageNo = root\<rparr>"

definition leafPage :: "int list \<Rightarrow> (PageId \<times> nat) list \<Rightarrow> PageId \<Rightarrow> Page" where
  "leafPage keys rids sib =
     LeafPage \<lparr>LeafNodeInt.level = - 1, keyArray = keys,
               ridArray = map (\<lambda>(p, s). \<lparr>page_number = p, slot_number = s\<rparr>) rids,
               rightSibPageNo = sib\<rparr>"

definition nonLeafPage :: "int \<Rightarrow> int list \<Rightarrow> PageId list \<Rightarrow> Page" where
  "nonLeafPage lvl keys pids =
     NonLeafPage \<lparr>NonLeafNodeInt.level = lvl, keyArray = keys, pageNoArray = pids\<rparr>"

text \<open>An index with no scan, no pinned page, the given pages, dirty bits and root.\<close>

definition idle :: "Page list \<Rightarrow> bool list \<Rightarrow> PageId \<Rightarrow> BTreeIndex" where
  "idle ps ds root =
     \<lparr>file' = Some ''rel.0'', bufMgr = \<lparr>pages = ps, pinCnt = map (\<lambda>_. 0) ps, dirty = ds\<rparr>,
      headerPageNum = 1, rootPageNum = root, scanExecuting = False, nextEntry = 0,
      currentPageNum = 0, currentPageData = None, lowValInt = 0, highValInt = 0,
      lowOp = LT, highOp = LT\<rparr>"

definition index_0 :: BTreeIndex where
  "index_0 = idle [metaPage 2, leafPage [0, 0] [(0, 0), (0, 0)] 0] [False, False] 2"

definition index_1 :: BTreeIndex where
  "index_1 = idle [metaPage 2, leafPage [1, 0] [(1, 1), (0, 0)] 0] [False, True] 2"

definition index_2 :: BTreeIndex where
  "index_2 = idle [metaPage 2, leafPage [1, 2] [(1, 1), (2, 2)] 0] [False, True] 2"

definition index_3 :: BTreeIndex where
  "index_3 =
     idle [metaPage 4,
           leafPage [1, 2] [(1, 1), (0, 2)] 3,
           leafPage [2, 3] [(2, 2), (3, 3)] 0,
           nonLeafPage 1 [2, 0] [2, 3, 0]]
          [True, True, True, True] 4"

definition index_4 :: BTreeIndex where
  "index_4 =
     idle [metaPage 4,
           leafPage [1, 2] [(1, 1), (0, 2)] 3,
           leafPage [2, 3] [(2, 2), (0, 3)] 5,
           nonLeafPage 1 [2, 3] [2, 3, 5],
           leafPage [3, 4] [(3, 3), (4, 4)] 0]
          [True, True, True, True, True] 4"

definition index_5 :: BTreeIndex where
  "index_5 =
     idle [metaPage 8,
           leafPage [1, 2] [(1, 1), (0, 2)] 3,
           leafPage [2, 3] [(2, 2), (0, 3)] 5,
           nonLeafPage 1 [2, 3] [2, 3, 0],
           leafPage [3, 4] [(3, 3), (0, 4)] 6,
           leafPage [4, 5] [(4, 4), (5, 5)] 0,
           nonLeafPage 1 [4, 0] [5, 4, 0],
           nonLeafPage 0 [3, 0] [4, 7, 0]]
          [True, True, True, True, True, True, True, True] 8"

text \<open>
  \<open>index_4\<close> during \<open>insertEntry\<close> of key 5, when \<open>insertNode\<close> has come back to
  \<open>insertEntry\<close> with the split of the root (page 4) and no new root is allocated yet.
\<close>

definition index_4_descended :: BTreeIndex where
  "index_4_descended =
     idle [metaPage 4,
           leafPage [1, 2] [(1, 1), (0, 2)] 3,
           leafPage [2, 3] [(2, 2), (0, 3)] 5,
           nonLeafPage 1 [2, 3] [2, 3, 0],
           leafPage [3, 4] [(3, 3), (0, 4)] 6,
           leafPage [4, 5] [(4, 4), (5, 5)] 0,
           nonLeafPage 1 [4, 0] [5, 4, 0]]
          [True, True, True, True, True, True, True] 4"

text \<open>
  The object after a \<open>startScan\<close> that stopped at slot 0 of page \<open>leaf\<close>, which it
  keeps pinned.
\<close>

definition scanning :: "BTreeIndex \<Rightarrow> PageId \<Rightarrow> int \<Rightarrow> Operator \<Rightarrow> int \<Rightarrow> Operator \<Rightarrow> BTreeIndex" where
  "scanning this leaf lowVal lo highVal hi =
     this\<lparr>bufMgr := (bufMgr this)\<lparr>pinCnt := (pinCnt (bufMgr this))[leaf - 1 := 1]\<rparr>,
          scanExecuting := True, nextEntry := 0, currentPageNum := leaf,
          currentPageData := Some leaf, lowValInt := lowVal, highValInt := highVal,
          lowOp := lo, highOp := hi\<rparr>"

section \<open>Reaching the concrete indexes\<close>

lemma index_0_built:
  "BTreeIndex_ctor 1 2 2 flushFile_plain None [] blank ''rel'' 0 INTEGER
     = Some (Inr (), ''rel.0'', index_0)"
  by code_simp

lemma index_1_reached: "insertEntry 1 2 2 1 (rid_of 1) index_0 = Some (Inr (), index_1)"
  by code_simp

lemma index_2_reached: "insertEntry 1 2 2 2 (rid_of 2) index_1 = Some (Inr (), index_2)"
  by code_simp

lemma index_3_reached: "insertEntry 1 2 2 3 (rid_of 3) index_2 = Some (Inr (), index_3)"
  by code_simp

lemma index_4_reached: "insertEntry 2 2 2 4 (rid_of 4) index_3 = Some (Inr (), index_4)"
  by code_simp

lemma index_5_reached: "insertEntry 2 2 2 5 (rid_of 5) index_4 = Some (Inr (), index_5)"
  by code_simp

lemma index_1_scan_below_reached:
  "startScan 1 2 2 (- 10) GTE 0 LTE index_1 = Some (Inr (), scanning index_1 2 (- 10) GTE 0 LTE)"
  by code_simp

lemma index_1_scan_reached:
  "startScan 1 2 2 0 GTE 100 LTE index_1 = Some (Inr (), scanning index_1 2 0 GTE 100 LTE)"
  by code_simp

lemma index_3_scan_reached:
  "startScan 2 2 2 2 GT 100 LTE index_3 = Some (Inr (), scanning index_3 3 2 GT 100 LTE)"
  by code_simp

section \<open>Facts about the buffer manager\<close>

lemma readPage_pages:
  "readPage bm pid = Some (pg, bm1) \<Longrightarrow> pages bm1 = pages bm \<and> dirty bm1 = dirty bm"
  by (auto simp: readPage_def split: if_splits)

lemma unPinPage_pages: "pages (unPinPage bm pid d) = pages bm"
  by (simp add: unPinPage_def)

lemma unPinPage_clean_dirty: "dirty (unPinPage bm pid False) = dirty bm"
  by (simp add: unPinPage_def)

section \<open>Scans leave the file as it is\<close>

lemma recursiveScanPageId_pages:
  "recursiveScanPageId fuel M this = Some (r, this')
     \<Longrightarrow> pages (bufMgr this') = pages (bufMgr this) \<and> dirty (bufMgr this') = dirty (bufMgr this)"
proof (induction fuel arbitrary: this)
  case 0
  then show ?case by simp
next
  case (Suc fuel)
  show ?case
  proof (cases "readPage (bufMgr this) (currentPageNum this)")
    case None
    with Suc.prems show ?thesis by simp
  next
    case (Some a)
    obtain pg bm1 where a: "a = (pg, bm1)" by (cases a)
    have rd: "pages bm1 = pages (bufMgr this) \<and> dirty bm1 = dirty (bufMgr this)"
      using Some a readPage_pages by blast
    show ?thesis
      using Suc.prems Some a rd
      by (auto simp: Let_def unPinPage_pages unPinPage_clean_dirty dest!: Suc.IH
               split: option.splits if_splits Page.splits)
  qed
qed

lemma endScan_bufMgr: "bufMgr (snd (endScan this)) = bufMgr this"
  by (simp add: endScan_def)

lemma scanNext_pages:
  "pages (bufMgr (snd (snd (scanNext L this)))) = pages (bufMgr this)
   \<and> dirty (bufMgr (snd (snd (scanNext L this)))) = dirty (bufMgr this)"
  unfolding scanNext_def
  by (auto simp: Let_def unPinPage_pages unPinPage_clean_dirty dest!: readPage_pages
           split: option.splits Page.splits)

lemma startScan_position_pages:
  "pages (bufMgr (snd (startScan_position L this))) = pages (bufMgr this)
   \<and> dirty (bufMgr (snd (startScan_position L this))) = dirty (bufMgr this)"
  unfolding startScan_position_def
  by (auto simp: Let_def unPinPage_pages unPinPage_clean_dirty dest!: readPage_pages
           split: option.splits Page.splits scan_pos.splits)

lemma startScan_pages:
  assumes "startScan fuel L M lowVal lo highVal hi this = Some (r, this')"
  shows "pages (bufMgr this') = pages (bufMgr this) \<and> dirty (bufMgr this') = dirty (bufMgr this)"
proof -
  define this1 where
    "this1 = this\<lparr>lowValInt := lowVal, highValInt := highVal, lowOp := lo, highOp := hi\<rparr>"
  define this2 where "this2 = (if scanExecuting this1 then snd (endScan this1) else this1)"
  have e: "(if scanExecuting this1 then endScan this1 else (Inr (), this1)) = (Inr (), this2)"
    by (simp add: this2_def endScan_def)
  have b2: "bufMgr this2 = bufMgr this"
    by (simp add: this2_def this1_def endScan_def)
  consider (early) "bufMgr this' = bufMgr this"
    | (descent) e' this3 where
        "recursiveScanPageId fuel M (this2\<lparr>currentPageNum := rootPageNum this2\<rparr>) = Some (Inl e', this3)"
        "this' = this3"
    | (position) u this3 where
        "recursiveScanPageId fuel M (this2\<lparr>currentPageNum := rootPageNum this2\<rparr>) = Some (Inr u, this3)"
        "this' = snd (startScan_position L this3)"
    using assms unfolding startScan_def Let_def this1_def[symmetric] e
    by (auto simp: this1_def split: if_splits option.splits sum.splits)
  then show ?thesis
  proof cases
    case early
    then show ?thesis by simp
  next
    case descent
    from recursiveScanPageId_pages[OF descent(1)] descent(2) b2 show ?thesis by simp
  next
    case position
    from recursiveScanPageId_pages[OF position(1)] startScan_position_pages[of L this3] position(2) b2
    show ?thesis by simp
  qed
qed

lemma scan_step_pages:
  "scan_step fuel L M c this = Some this'
     \<Longrightarrow> pages (bufMgr this') = pages (bufMgr this) \<and> dirty (bufMgr this') = dirty (bufMgr this)"
  by (cases c) (auto simp: scanNext_pages endScan_bufMgr dest: startScan_pages)

text \<open>
  C10. Scans never modify the index: after any sequence of \<open>startScan\<close>, \<open>scanNext\<close> and
  \<open>endScan\<close> calls (\<open>startScan\<close> runs the descent \<open>recursiveScanPageId\<close>), whether the
  calls return or raise, every page of the file has the content it had before, and
  every dirty bit is as it was before: a page that was clean is still clean, so no
  scan operation unpinned it with \<open>dirty = true\<close>.
\<close>

theorem scans_leave_pages:
  "scan_run fuel L M calls this = Some this'
     \<Longrightarrow> pages (bufMgr this') = pages (bufMgr this) \<and> dirty (bufMgr this') = dirty (bufMgr this)"
proof (induction calls arbitrary: this)
  case Nil
  then show ?case by simp
next
  case (Cons c calls)
  then obtain this1 where s: "scan_step fuel L M c this = Some this1"
    and r: "scan_run fuel L M calls this1 = Some this'"
    by (auto split: option.splits)
  from scan_step_pages[OF s] Cons.IH[OF r] show ?case by simp
qed

theorem scans_leave_pages_witness:
  "scan_run 2 2 2 [StartScan 2 GT 100 LTE, ScanNext, ScanNext, EndScan] index_3
     = Some (index_3\<lparr>nextEntry := - 1, lowValInt := 2, highValInt := 100, lowOp := GT, highOp := LTE\<rparr>)
   \<and> pages (bufMgr (index_3\<lparr>nextEntry := - 1, lowValInt := 2, highValInt := 100,
                               lowOp := GT, highOp := LTE\<rparr>)) = pages (bufMgr index_3)
   \<and> dirty (bufMgr (index_3\<lparr>nextEntry := - 1, lowValInt := 2, highValInt := 100,
                               lowOp := GT, highOp := LTE\<rparr>)) = dirty (bufMgr index_3)"
proof -
  have r: "scan_run 2 2 2 [StartScan 2 GT 100 LTE, ScanNext, ScanNext, EndScan] index_3
             = Some (index_3\<lparr>nextEntry := - 1, lowValInt := 2, highValInt := 100,
                             lowOp := GT, highOp := LTE\<rparr>)"
    by code_simp
  from scans_leave_pages[OF r] r show ?thesis by simp
qed

section \<open>What scanNext stores and when startScan raises\<close>

text \<open>
  C1. The claim is that \<open>scanNext\<close> delivers a record id only for a key within both
  bounds. \<open>scanNext\<close> never compares a key with the lower bound, and \<open>startScan\<close> does
  not compare it either when it moves to the right sibling: at a slot whose key is at
  or below an exclusive lower bound (and below the upper bound, with the next slot
  occupied), \<open>scanNext\<close> returns normally with that slot's record id in \<open>outRid\<close>. The
  witness is the scan \<open>(2, GT, 100, LTE)\<close> of \<open>index_3\<close>, which starts at the leaf of
  key 1, moves to its sibling and delivers key 2.
\<close>

theorem scanNext_ignores_lower_bound:
  assumes "scanExecuting this"
    and "currentPageData this = Some frame"
    and "validPage (bufMgr this) frame"
    and "getPage (bufMgr this) frame = LeafPage node"
    and "0 \<le> nextEntry this" and "nextEntry this + 1 < int L"
    and "page_number (ridArray node ! nat (nextEntry this + 1)) \<noteq> 0"
    and "LeafNodeInt.keyArray node ! nat (nextEntry this) < highValInt this"
    and "lowOp this = GT"
    and "LeafNodeInt.keyArray node ! nat (nextEntry this) \<le> lowValInt this"
  shows "scanNext L this
           = (Inr (), Some (ridArray node ! nat (nextEntry this)), this\<lparr>nextEntry := nextEntry this + 1\<rparr>)"
  using assms by (simp add: scanNext_def Let_def)

theorem scanNext_ignores_lower_bound_witness:
  "startScan 2 2 2 2 GT 100 LTE index_3 = Some (Inr (), scanning index_3 3 2 GT 100 LTE)
   \<and> getPage (bufMgr (scanning index_3 3 2 GT 100 LTE)) 3 = leafPage [2, 3] [(2, 2), (3, 3)] 0
   \<and> lowOp (scanning index_3 3 2 GT 100 LTE) = GT
   \<and> lowValInt (scanning index_3 3 2 GT 100 LTE) = 2
   \<and> scanNext 2 (scanning index_3 3 2 GT 100 LTE)
       = (Inr (), Some (rid_of 2), (scanning index_3 3 2 GT 100 LTE)\<lparr>nextEntry := 1\<rparr>)"
proof -
  let ?s = "scanning index_3 3 2 GT 100 LTE"
  let ?n = "\<lparr>LeafNodeInt.level = - 1, keyArray = [2, 3],
             ridArray = [\<lparr>page_number = 2, slot_number = 2\<rparr>, \<lparr>page_number = 3, slot_number = 3\<rparr>],
             rightSibPageNo = 0\<rparr>"
  have a: "scanExecuting ?s" "currentPageData ?s = Some 3" "validPage (bufMgr ?s) 3"
    "getPage (bufMgr ?s) 3 = LeafPage ?n" "0 \<le> nextEntry ?s" "nextEntry ?s + 1 < int 2"
    "page_number (ridArray ?n ! nat (nextEntry ?s + 1)) \<noteq> 0"
    "LeafNodeInt.keyArray ?n ! nat (nextEntry ?s) < highValInt ?s"
    "lowOp ?s = GT"
    "LeafNodeInt.keyArray ?n ! nat (nextEntry ?s) \<le> lowValInt ?s"
    by (simp_all add: scanning_def index_3_def idle_def validPage_def getPage_def leafPage_def)
  have h: "lowValInt ?s = 2" "nextEntry ?s = 0"
    by (simp_all add: scanning_def)
  from scanNext_ignores_lower_bound[OF a] a(4,9) h index_3_scan_reached
  show ?thesis by (simp add: leafPage_def rid_of_def)
qed

text \<open>
  \<open>scanNext\<close> also stores \<open>ridArray[nextEntry]\<close> in \<open>outRid\<close> before it compares the key
  with the upper bound: at a slot whose key is above the upper bound it stores that
  slot's record id and then raises \<open>IndexScanCompletedException\<close>.
\<close>

lemma scanNext_stores_rid_above_upper_bound:
  assumes "scanExecuting this"
    and "currentPageData this = Some frame"
    and "validPage (bufMgr this) frame"
    and "getPage (bufMgr this) frame = LeafPage node"
    and "0 \<le> nextEntry this" and "nextEntry this < int L"
    and "highValInt this < LeafNodeInt.keyArray node ! nat (nextEntry this)"
  shows "fst (scanNext L this) = Inl IndexScanCompletedException
         \<and> fst (snd (scanNext L this)) = Some (ridArray node ! nat (nextEntry this))"
  using assms by (simp add: scanNext_def Let_def)

lemma scanNext_above_upper_bound_example:
  "startScan 1 2 2 (- 10) GTE 0 LTE index_1 = Some (Inr (), scanning index_1 2 (- 10) GTE 0 LTE)
   \<and> fst (scanNext 2 (scanning index_1 2 (- 10) GTE 0 LTE)) = Inl IndexScanCompletedException
   \<and> fst (snd (scanNext 2 (scanning index_1 2 (- 10) GTE 0 LTE))) = Some (rid_of 1)"
  using index_1_scan_below_reached by code_simp

text \<open>
  And it raises \<open>IndexScanCompletedException\<close> in the call that stores the last entry
  of the rightmost leaf, also when that entry is within both bounds.
\<close>

lemma scanNext_raises_with_last_entry:
  "startScan 1 2 2 0 GTE 100 LTE index_1 = Some (Inr (), scanning index_1 2 0 GTE 100 LTE)
   \<and> fst (scanNext 2 (scanning index_1 2 0 GTE 100 LTE)) = Inl IndexScanCompletedException
   \<and> fst (snd (scanNext 2 (scanning index_1 2 0 GTE 100 LTE))) = Some (rid_of 1)"
  using index_1_scan_reached by code_simp

text \<open>
  C5. The claim is that \<open>startScan\<close> raises \<open>NoSuchKeyFoundException\<close> whenever no
  stored key is within both bounds. The loop of \<open>startScan\<close> compares a key with the
  upper bound only after the key has failed the lower bound: when the root is a leaf,
  its first slot is occupied and all its keys are above the upper bound (hence at or
  above the lower bound), \<open>startScan(lowVal, GTE, highVal, LTE)\<close> returns normally.
\<close>

theorem startScan_accepts_key_above_range:
  assumes "readPage (bufMgr this) (rootPageNum this) = Some (LeafPage leaf, bm1)"
    and "LeafNodeInt.level leaf = - 1"
    and "0 < L"
    and "page_number (ridArray leaf ! 0) \<noteq> 0"
    and "lowVal \<le> highVal"
    and "\<forall>i<L. page_number (ridArray leaf ! i) \<noteq> 0 \<longrightarrow> highVal < LeafNodeInt.keyArray leaf ! i"
  shows "map_option fst (startScan (Suc fuel) L M lowVal GTE highVal LTE this) = Some (Inr ())"
proof -
  have k: "lowVal \<le> LeafNodeInt.keyArray leaf ! 0"
    using assms by force
  have f: "startScan_find L leaf GTE lowVal LTE highVal 0 = Found 0"
    using assms(3,4) k by (simp add: startScan_find.simps[of L leaf GTE lowVal LTE highVal 0])
  have v: "validPage (bufMgr this) (rootPageNum this)"
       "getPage (bufMgr this) (rootPageNum this) = LeafPage leaf"
    using assms(1) by (auto simp: readPage_def split: if_splits)
  show ?thesis
    using assms(2,5) f v
    by (simp add: startScan_def Let_def endScan_def startScan_position_def
                  readPage_def unPinPage_def validPage_def getPage_def)
qed

theorem startScan_accepts_key_above_range_witness:
  "readPage (bufMgr index_1) (rootPageNum index_1)
     = Some (leafPage [1, 0] [(1, 1), (0, 0)] 0, (bufMgr index_1)\<lparr>pinCnt := [0, 1]\<rparr>)
   \<and> map_option fst (startScan (Suc 0) 2 2 (- 10) GTE 0 LTE index_1) = Some (Inr ())"
proof -
  let ?n = "\<lparr>LeafNodeInt.level = - 1, keyArray = [1, 0],
             ridArray = [\<lparr>page_number = 1, slot_number = 1\<rparr>, \<lparr>page_number = 0, slot_number = 0\<rparr>],
             rightSibPageNo = 0\<rparr>"
  have r: "readPage (bufMgr index_1) (rootPageNum index_1)
             = Some (LeafPage ?n, (bufMgr index_1)\<lparr>pinCnt := [0, 1]\<rparr>)"
    by (simp add: readPage_def validPage_def getPage_def index_1_def idle_def leafPage_def)
  have a: "LeafNodeInt.level ?n = - 1" "0 < (2::nat)" "page_number (ridArray ?n ! 0) \<noteq> 0"
    "(- 10::int) \<le> 0"
    by simp_all
  have b: "\<forall>i<2::nat. page_number (ridArray ?n ! i) \<noteq> 0 \<longrightarrow> 0 < LeafNodeInt.keyArray ?n ! i"
    by (simp add: less_Suc_eq numeral_2_eq_2)
  from startScan_accepts_key_above_range[OF r a b, of 0 2] r
  show ?thesis by (simp add: leafPage_def)
qed

section \<open>Pins and teardown\<close>

text \<open>
  C6. The claim is that \<open>endScan\<close> unpins the leaf that the scan holds. The code of
  \<open>endScan\<close> does not call the buffer manager: called with a scan executing and the
  current leaf pinned, it returns normally, the scan is no longer executing and the
  leaf is still pinned.
\<close>

theorem endScan_leaves_leaf_pinned:
  assumes "scanExecuting this" and "0 < pinCnt (bufMgr this) ! (currentPageNum this - 1)"
  shows "fst (endScan this) = Inr ()
         \<and> \<not> scanExecuting (snd (endScan this))
         \<and> 0 < pinCnt (bufMgr (snd (endScan this))) ! (currentPageNum this - 1)"
  using assms by (simp add: endScan_def)

theorem endScan_leaves_leaf_pinned_witness:
  "startScan 1 2 2 0 GTE 100 LTE index_1 = Some (Inr (), scanning index_1 2 0 GTE 100 LTE)
   \<and> scanExecuting (scanning index_1 2 0 GTE 100 LTE)
   \<and> pinCnt (bufMgr (scanning index_1 2 0 GTE 100 LTE)) ! (2 - 1) = 1
   \<and> fst (endScan (scanning index_1 2 0 GTE 100 LTE)) = Inr ()
   \<and> \<not> scanExecuting (snd (endScan (scanning index_1 2 0 GTE 100 LTE)))
   \<and> 0 < pinCnt (bufMgr (snd (endScan (scanning index_1 2 0 GTE 100 LTE)))) ! (2 - 1)"
proof -
  have a: "scanExecuting (scanning index_1 2 0 GTE 100 LTE)"
    by (simp add: scanning_def)
  have c: "currentPageNum (scanning index_1 2 0 GTE 100 LTE) = 2"
    by (simp add: scanning_def)
  have p: "pinCnt (bufMgr (scanning index_1 2 0 GTE 100 LTE)) ! (2 - 1) = 1"
    by (simp add: scanning_def index_1_def idle_def)
  have b: "0 < pinCnt (bufMgr (scanning index_1 2 0 GTE 100 LTE))
                 ! (currentPageNum (scanning index_1 2 0 GTE 100 LTE) - 1)"
    using p c by simp
  from endScan_leaves_leaf_pinned[OF a b] index_1_scan_reached a p c show ?thesis by simp
qed

text \<open>
  C8. The claim is that the destructor suppresses every error. The destructor calls
  \<open>flushFile\<close> outside any handler: when the buffer manager's flush raises, the
  destructor raises the same exception, and the file handle is not released.
\<close>

theorem dtor_propagates_flush_error:
  "flushFile (bufMgr this) = Inl e
     \<Longrightarrow> fst (BTreeIndex_dtor flushFile this) = Inl e
         \<and> file' (snd (BTreeIndex_dtor flushFile this)) = file' this"
  by (simp add: BTreeIndex_dtor_def)

theorem dtor_propagates_flush_error_witness:
  "flushFile_pinned (bufMgr (scanning index_1 2 0 GTE 100 LTE)) = Inl PagePinnedException
   \<and> fst (BTreeIndex_dtor flushFile_pinned (scanning index_1 2 0 GTE 100 LTE)) = Inl PagePinnedException
   \<and> file' (snd (BTreeIndex_dtor flushFile_pinned (scanning index_1 2 0 GTE 100 LTE))) = Some ''rel.0''"
proof -
  have f: "flushFile_pinned (bufMgr (scanning index_1 2 0 GTE 100 LTE)) = Inl PagePinnedException"
    by (simp add: flushFile_pinned_def scanning_def index_1_def idle_def)
  have n: "file' (scanning index_1 2 0 GTE 100 LTE) = Some ''rel.0''"
    by (simp add: scanning_def index_1_def idle_def)
  from dtor_propagates_flush_error[of flushFile_pinned "scanning index_1 2 0 GTE 100 LTE", OF f] f n
  show ?thesis by simp
qed

section \<open>Opening an existing index file\<close>

text \<open>
  C4. The claim is that the constructor compares its parameters with the metadata of
  an existing file and raises \<open>BadIndexInfoException\<close> when they differ. The code
  compares nothing: whenever page 1 of the existing file is a metadata page, the
  constructor returns normally, whatever relation name, offset and type it is given,
  and the metadata page in the buffer pool then holds the given values in place of the
  stored ones.
\<close>

theorem ctor_open_never_checks:
  assumes "readPage bm 1 = Some (MetaPage meta, bm1)"
  shows "map_option (\<lambda>(r, name, this). (r, getPage (bufMgr this) 1))
           (BTreeIndex_ctor fuel L M flushFile (Some bm) records this0 rel off ty)
         = Some (Inr (), MetaPage (meta\<lparr>relationName := take 19 rel, attrByteOffset := off,
                                        attrType := ty\<rparr>))"
proof -
  have v: "0 < length (pages bm1)"
    using assms by (auto simp: readPage_def validPage_def split: if_splits)
  show ?thesis
    using assms v
    by (simp add: BTreeIndex_ctor_def Let_def getPage_def putPage_def unPinPage_pages)
qed

theorem ctor_open_never_checks_witness:
  "readPage (bufMgr index_1) 1 = Some (metaPage 2, (bufMgr index_1)\<lparr>pinCnt := [1, 0]\<rparr>)
   \<and> metaPage 2 = MetaPage \<lparr>relationName = ''rel'', attrByteOffset = 0, attrType = INTEGER, rootPageNo = 2\<rparr>
   \<and> map_option (\<lambda>(r, name, this). (r, getPage (bufMgr this) 1))
        (BTreeIndex_ctor 1 2 2 flushFile_plain (Some (bufMgr index_1)) [] blank ''rel'' 0 DOUBLE)
      = Some (Inr (), MetaPage \<lparr>relationName = ''rel'', attrByteOffset = 0, attrType = DOUBLE, rootPageNo = 2\<rparr>)"
proof -
  have r: "readPage (bufMgr index_1) 1
             = Some (MetaPage \<lparr>relationName = ''rel'', attrByteOffset = 0, attrType = INTEGER, rootPageNo = 2\<rparr>,
                     (bufMgr index_1)\<lparr>pinCnt := [1, 0]\<rparr>)"
    by (simp add: readPage_def validPage_def getPage_def index_1_def idle_def metaPage_def)
  from ctor_open_never_checks[OF r, of 1 2 2 flushFile_plain "[]" blank "''rel''" 0 DOUBLE] r
  show ?thesis by (simp add: metaPage_def)
qed

section \<open>Array indexes of the two loops\<close>

lemma insertToLeaf_next_junk:
  "length (ridArray node) = L
     \<Longrightarrow> fst (insertToLeaf_next L junk node next reads) = fst (insertToLeaf_next L junk' node next reads')"
proof (induction "L - next" arbitrary: "next" reads reads')
  case 0
  then show ?case
    by (simp add: insertToLeaf_next.simps[of L _ node "next"])
next
  case (Suc d)
  then have lt: "next < L" by simp
  have d: "d = L - (next + 1)" using Suc.hyps by simp
  show ?case
    using lt Suc.prems Suc.hyps(1)[OF d Suc.prems, of "reads @ [next]" "reads' @ [next]"]
    by (simp add: insertToLeaf_next.simps[of L _ node "next"] peek_def)
qed

lemma findNonLeafIndex_loop_junk:
  "length (pageNoArray node) = M + 1 \<Longrightarrow> length (NonLeafNodeInt.keyArray node) = M
     \<Longrightarrow> fst (findNonLeafIndex_loop M junkPid junkKey node key idx reads)
         = fst (findNonLeafIndex_loop M junkPid' junkKey' node key idx reads')"
proof (induction "M - idx" arbitrary: idx reads reads')
  case 0
  then show ?case
    by (simp add: findNonLeafIndex_loop.simps[of M _ _ node key idx])
next
  case (Suc d)
  then have lt: "idx < M" by simp
  have d: "d = M - (idx + 1)" using Suc.hyps by simp
  show ?case
    using lt Suc.prems Suc.hyps(1)[OF d Suc.prems, of "reads @ [idx + 1]" "reads' @ [idx + 1]"]
    by (simp add: findNonLeafIndex_loop.simps[of M _ _ node key idx] peek_def)
qed

lemma insertToLeaf_next_full:
  "next \<le> L \<Longrightarrow> length (ridArray node) = L
     \<Longrightarrow> \<forall>i<L. page_number (ridArray node ! i) \<noteq> 0
     \<Longrightarrow> insertToLeaf_next L junk node next reads = (L, reads @ [next ..< L + 1])"
proof (induction "L - next" arbitrary: "next" reads)
  case 0
  then show ?case
    by (subst insertToLeaf_next.simps) simp
next
  case (Suc d)
  then have lt: "next < L" by simp
  have d: "d = L - (next + 1)" using Suc.hyps by simp
  have le: "next + 1 \<le> L" using lt by simp
  have u: "[next ..< L + 1] = next # [next + 1 ..< L + 1]"
    using lt by (simp add: upt_conv_Cons)
  show ?case
    using lt Suc.prems Suc.hyps(1)[OF d le Suc.prems(2,3), of "reads @ [next]"] u
    by (simp add: insertToLeaf_next.simps[of L _ node "next"] peek_def)
qed

lemma findNonLeafIndex_loop_full:
  "idx \<le> M \<Longrightarrow> length (pageNoArray node) = M + 1 \<Longrightarrow> length (NonLeafNodeInt.keyArray node) = M
     \<Longrightarrow> \<forall>i<M. pageNoArray node ! (i + 1) \<noteq> 0 \<and> NonLeafNodeInt.keyArray node ! i < key
     \<Longrightarrow> findNonLeafIndex_loop M junkPid junkKey node key idx reads = (M, reads @ [idx + 1 ..< M + 2])"
proof (induction "M - idx" arbitrary: idx reads)
  case 0
  then show ?case
    by (subst findNonLeafIndex_loop.simps) simp
next
  case (Suc d)
  then have lt: "idx < M" by simp
  have d: "d = M - (idx + 1)" using Suc.hyps by simp
  have le: "idx + 1 \<le> M" using lt by simp
  have u: "[idx + 1 ..< M + 2] = (idx + 1) # [idx + 2 ..< M + 2]"
    using lt by (simp add: upt_conv_Cons)
  show ?case
    using lt Suc.prems Suc.hyps(1)[OF d le Suc.prems(2,3,4), of "reads @ [idx + 1]"] u
    by (simp add: findNonLeafIndex_loop.simps[of M _ _ node key idx] peek_def)
qed

text \<open>
  C9. The claim is that the fullness loop of \<open>insertToLeaf\<close> reads \<open>ridArray\<close> only at
  indexes below \<open>L\<close> and \<open>findNonLeafIndex\<close> reads \<open>pageNoArray\<close> only at indexes up to
  \<open>M\<close>. On a full leaf the fullness loop reads \<open>ridArray\<close> at \<open>0, \<dots>, L\<close>, and on a full
  non-leaf node with a key greater than all its keys \<open>findNonLeafIndex\<close> reads
  \<open>pageNoArray\<close> at \<open>1, \<dots>, M + 1\<close>: the last read of each loop is one slot past the
  array.
\<close>

theorem loop_conditions_read_past_the_arrays:
  assumes "length (ridArray leaf) = L"
    and "\<forall>i<L. page_number (ridArray leaf ! i) \<noteq> 0"
    and "length (pageNoArray node) = M + 1" and "length (NonLeafNodeInt.keyArray node) = M"
    and "\<forall>i<M. pageNoArray node ! (i + 1) \<noteq> 0 \<and> NonLeafNodeInt.keyArray node ! i < key"
  shows "snd (insertToLeaf_next L junk leaf 0 []) = [0 ..< L + 1]
         \<and> snd (findNonLeafIndex_loop M junkPid junkKey node key 0 []) = [1 ..< M + 2]"
  using insertToLeaf_next_full[OF _ assms(1,2), of 0 junk "[]"]
        findNonLeafIndex_loop_full[OF _ assms(3,4,5), of 0 junkPid junkKey "[]"]
  by simp

theorem loop_conditions_read_past_the_arrays_witness:
  "getPage (bufMgr index_2) 2 = leafPage [1, 2] [(1, 1), (2, 2)] 0
   \<and> getPage (bufMgr index_4) 4 = nonLeafPage 1 [2, 3] [2, 3, 5]
   \<and> snd (insertToLeaf_next 2 \<lparr>page_number = 0, slot_number = 0\<rparr>
            \<lparr>LeafNodeInt.level = - 1, keyArray = [1, 2],
             ridArray = [\<lparr>page_number = 1, slot_number = 1\<rparr>, \<lparr>page_number = 2, slot_number = 2\<rparr>],
             rightSibPageNo = 0\<rparr> 0 []) = [0, 1, 2]
   \<and> snd (findNonLeafIndex_loop 2 0 0
            \<lparr>NonLeafNodeInt.level = 1, keyArray = [2, 3], pageNoArray = [2, 3, 5]\<rparr> 5 0 []) = [1, 2, 3]"
proof -
  let ?leaf = "\<lparr>LeafNodeInt.level = - 1, keyArray = [1, 2],
             ridArray = [\<lparr>page_number = 1, slot_number = 1\<rparr>, \<lparr>page_number = 2, slot_number = 2\<rparr>],
             rightSibPageNo = 0\<rparr>"
  let ?node = "\<lparr>NonLeafNodeInt.level = 1, keyArray = [2, 3], pageNoArray = [2, 3, 5]\<rparr>"
  have a: "length (ridArray ?leaf) = 2" "\<forall>i<2::nat. page_number (ridArray ?leaf ! i) \<noteq> 0"
    "length (pageNoArray ?node) = 2 + 1" "length (NonLeafNodeInt.keyArray ?node) = 2"
    "\<forall>i<2::nat. pageNoArray ?node ! (i + 1) \<noteq> 0 \<and> NonLeafNodeInt.keyArray ?node ! i < 5"
    by (simp_all add: less_Suc_eq numeral_2_eq_2)
  have p: "getPage (bufMgr index_2) 2 = leafPage [1, 2] [(1, 1), (2, 2)] 0"
    "getPage (bufMgr index_4) 4 = nonLeafPage 1 [2, 3] [2, 3, 5]"
    by (simp_all add: getPage_def index_2_def index_4_def idle_def)
  have u: "[0 ..< 2 + 1] = [0, 1, 2::nat]" "[1 ..< 2 + 2] = [1, 2, 3::nat]"
    by (simp_all add: upt_rec)
  from loop_conditions_read_past_the_arrays[OF a, of "\<lparr>page_number = 0, slot_number = 0\<rparr>" 0 0] p u
  show ?thesis by simp
qed

section \<open>What a leaf split leaves in the old leaf\<close>

lemma splitLeafNode_merge_copy:
  "i = j + 1 \<Longrightarrow> j \<le> L \<Longrightarrow> length tk = L + 1 \<Longrightarrow> length tr = L + 1
     \<Longrightarrow> length (LeafNodeInt.keyArray node) = L \<Longrightarrow> length (ridArray node) = L
     \<Longrightarrow> \<forall>k<L. page_number (ridArray node ! k) \<noteq> 0
     \<Longrightarrow> splitLeafNode_merge L node key rid i j (tk, tr)
         = (take i tk @ drop j (LeafNodeInt.keyArray node), take i tr @ drop j (ridArray node))"
proof (induction "L - j" arbitrary: i j tk tr)
  case 0
  then have j: "j = L" and i: "i = L + 1" by simp_all
  show ?case
    using 0 unfolding i j
    by (subst splitLeafNode_merge.simps) simp
next
  case (Suc d)
  then have lt: "j < L" by simp
  have d: "d = L - (j + 1)" using Suc.hyps by simp
  have le: "j + 1 \<le> L" using lt by simp
  let ?tk = "tk[i := LeafNodeInt.keyArray node ! j]"
  let ?tr = "tr[i := ridArray node ! j]"
  have step: "splitLeafNode_merge L node key rid i j (tk, tr)
                = splitLeafNode_merge L node key rid (i + 1) (j + 1) (?tk, ?tr)"
    using lt Suc.prems(1,7) by (subst splitLeafNode_merge.simps) auto
  have ih: "splitLeafNode_merge L node key rid (i + 1) (j + 1) (?tk, ?tr)
              = (take (i + 1) ?tk @ drop (j + 1) (LeafNodeInt.keyArray node),
                 take (i + 1) ?tr @ drop (j + 1) (ridArray node))"
    using Suc.hyps(1)[OF d _ le, of "i + 1" ?tk ?tr] Suc.prems by simp
  have k: "take (i + 1) ?tk @ drop (j + 1) (LeafNodeInt.keyArray node)
             = take i tk @ drop j (LeafNodeInt.keyArray node)"
    using lt Suc.prems(1,3,5) by (simp add: take_Suc_conv_app_nth Cons_nth_drop_Suc)
  have r: "take (i + 1) ?tr @ drop (j + 1) (ridArray node) = take i tr @ drop j (ridArray node)"
    using lt Suc.prems(1,4,6) by (simp add: take_Suc_conv_app_nth Cons_nth_drop_Suc)
  show ?case
    unfolding step ih using k r by simp
qed

lemma splitLeafNode_temp_front:
  assumes "1 \<le> L" and "length (LeafNodeInt.keyArray node) = L" and "length (ridArray node) = L"
    and "\<forall>k<L. page_number (ridArray node ! k) \<noteq> 0"
    and "key < LeafNodeInt.keyArray node ! 0"
  shows "splitLeafNode_temp L node key rid = (key # LeafNodeInt.keyArray node, rid # ridArray node)"
proof -
  let ?tk = "(replicate (L + 1) 0)[0 := key, 0 + 1 := LeafNodeInt.keyArray node ! 0]"
  let ?tr = "(replicate (L + 1) \<lparr>page_number = 0, slot_number = 0\<rparr>)[0 := rid, 0 + 1 := ridArray node ! 0]"
  have step: "splitLeafNode_temp L node key rid = splitLeafNode_merge L node key rid (0 + 2) (0 + 1) (?tk, ?tr)"
    unfolding splitLeafNode_temp_def
    using assms(1,4,5) by (subst splitLeafNode_merge.simps) auto
  have copy: "splitLeafNode_merge L node key rid (0 + 2) (0 + 1) (?tk, ?tr)
                = (take (0 + 2) ?tk @ drop (0 + 1) (LeafNodeInt.keyArray node),
                   take (0 + 2) ?tr @ drop (0 + 1) (ridArray node))"
    using splitLeafNode_merge_copy[OF _ _ _ _ assms(2,3,4), of "0 + 2" "0 + 1" ?tk ?tr key rid] assms(1)
    by simp
  obtain k ks where ks: "LeafNodeInt.keyArray node = k # ks"
    using assms(1,2) by (cases "LeafNodeInt.keyArray node") auto
  obtain r rs where rs: "ridArray node = r # rs"
    using assms(1,3) by (cases "ridArray node") auto
  obtain L' where L': "L = Suc L'"
    using assms(1) by (cases L) auto
  show ?thesis
    unfolding step copy by (simp add: ks rs L' numeral_2_eq_2)
qed

lemma splitLeafNode_move_old:
  "LeafNodeInt.keyArray (fst (splitLeafNode_move L tk tr i (node, newNode))) = LeafNodeInt.keyArray node
   \<and> (\<forall>k<i. ridArray (fst (splitLeafNode_move L tk tr i (node, newNode))) ! k = ridArray node ! k)"
proof (induction "L + 1 - i" arbitrary: i node newNode)
  case 0
  then have "\<not> i \<le> L" by simp
  then show ?case
    by (subst (1 2) splitLeafNode_move.simps) simp
next
  case (Suc d)
  then have le: "i \<le> L" by simp
  have d: "d = L + 1 - (i + 1)" using Suc.hyps by simp
  let ?node = "if i < L
               then node\<lparr>ridArray := (ridArray node)[i := (ridArray node ! i)\<lparr>page_number := 0\<rparr>]\<rparr>
               else node"
  let ?new = "newNode\<lparr>ridArray := (ridArray newNode)[i - L div 2 := tr ! i],
                       LeafNodeInt.keyArray := (LeafNodeInt.keyArray newNode)[i - L div 2 := tk ! i]\<rparr>"
  have step: "splitLeafNode_move L tk tr i (node, newNode)
                = splitLeafNode_move L tk tr (i + 1) (?node, ?new)"
    using le by (subst splitLeafNode_move.simps) simp
  have n: "LeafNodeInt.keyArray ?node = LeafNodeInt.keyArray node"
    "\<forall>k<i. ridArray ?node ! k = ridArray node ! k"
    by simp_all
  show ?case
    unfolding step using Suc.hyps(1)[OF d, of ?node ?new] n by simp
qed

text \<open>
  C2. The claim is that after the split the old leaf holds the merged entries
  \<open>0, \<dots>, L / 2 - 1\<close>. \<open>splitLeafNode\<close> copies the upper part of the merged arrays
  into the new leaf and clears the page numbers of the old leaf's upper slots, and
  never writes the lower part back. For a full leaf and a key below the leaf's first
  key, entry 0 of the merged arrays is the new pair, and slot 0 of the old leaf still
  holds the old first pair after the split; the promoted key is the old key at
  \<open>L / 2 - 1\<close> (the merged key at \<open>L / 2\<close>) and the new leaf is the next page of the file.
\<close>

theorem splitLeafNode_keeps_old_front:
  assumes "readPage bm pid = Some (LeafPage node, bm1)"
    and "2 \<le> L"
    and "length (LeafNodeInt.keyArray node) = L" and "length (ridArray node) = L"
    and "\<forall>k<L. page_number (ridArray node ! k) \<noteq> 0"
    and "key < LeafNodeInt.keyArray node ! 0"
  shows "fst (splitLeafNode_temp L node key rid) ! 0 = key
         \<and> snd (splitLeafNode_temp L node key rid) ! 0 = rid
         \<and> fst (splitLeafNode L key rid pid bm) = Inr (LeafNodeInt.keyArray node ! (L div 2 - 1), length (pages bm) + 1)
         \<and> (case getPage (snd (splitLeafNode L key rid pid bm)) pid of
               LeafPage node' \<Rightarrow>
                 LeafNodeInt.keyArray node' ! 0 = LeafNodeInt.keyArray node ! 0
                 \<and> ridArray node' ! 0 = ridArray node ! 0
             | _ \<Rightarrow> False)"
proof -
  have t: "splitLeafNode_temp L node key rid = (key # LeafNodeInt.keyArray node, rid # ridArray node)"
    using splitLeafNode_temp_front[OF _ assms(3,4,5,6)] assms(2) by simp
  have v: "1 \<le> pid" "pid \<le> length (pages bm)" "pages bm1 = pages bm"
    using assms(1) by (auto simp: readPage_def validPage_def split: if_splits)
  have h: "0 < L div 2" using assms(2) by simp
  define mv where "mv = splitLeafNode_move L (key # LeafNodeInt.keyArray node) (rid # ridArray node)
                          (L div 2) (node, emptyLeaf L)"
  have old: "LeafNodeInt.keyArray (fst mv) = LeafNodeInt.keyArray node"
            "ridArray (fst mv) ! 0 = ridArray node ! 0"
    using splitLeafNode_move_old[of L "key # LeafNodeInt.keyArray node" "rid # ridArray node"
            "L div 2" node "emptyLeaf L"] h
    by (simp_all add: mv_def)
  have m: "(key # LeafNodeInt.keyArray node) ! (L div 2) = LeafNodeInt.keyArray node ! (L div 2 - 1)"
    using h by (cases "L div 2") simp_all
  show ?thesis
    using assms(1) v old m
    by (auto simp: splitLeafNode_def t allocLeaf_def allocPage_def Let_def putPage_def unPinPage_def
                   validPage_def getPage_def mv_def[symmetric] split: prod.splits)
qed

theorem splitLeafNode_keeps_old_front_witness:
  "readPage (bufMgr index_2) 2 = Some (leafPage [1, 2] [(1, 1), (2, 2)] 0, (bufMgr index_2)\<lparr>pinCnt := [0, 1]\<rparr>)
   \<and> splitLeafNode_temp 2
        \<lparr>LeafNodeInt.level = - 1, keyArray = [1, 2],
         ridArray = [\<lparr>page_number = 1, slot_number = 1\<rparr>, \<lparr>page_number = 2, slot_number = 2\<rparr>],
         rightSibPageNo = 0\<rparr> 0 (rid_of 7)
       = ([0, 1, 2], [rid_of 7, rid_of 1, rid_of 2])
   \<and> fst (splitLeafNode 2 0 (rid_of 7) 2 (bufMgr index_2)) = Inr (1, 3)
   \<and> getPage (snd (splitLeafNode 2 0 (rid_of 7) 2 (bufMgr index_2))) 2 = leafPage [1, 2] [(1, 1), (0, 2)] 3
   \<and> getPage (snd (splitLeafNode 2 0 (rid_of 7) 2 (bufMgr index_2))) 3 = leafPage [1, 2] [(1, 1), (2, 2)] 0
   \<and> insertEntry 1 2 2 0 (rid_of 7) index_2
       = Some (Inr (),
               idle [metaPage 4,
                     leafPage [1, 2] [(1, 1), (0, 2)] 3,
                     leafPage [1, 2] [(1, 1), (2, 2)] 0,
                     nonLeafPage 1 [1, 0] [2, 3, 0]]
                    [True, True, True, True] 4)"
proof -
  let ?n = "\<lparr>LeafNodeInt.level = - 1, keyArray = [1, 2],
             ridArray = [\<lparr>page_number = 1, slot_number = 1\<rparr>, \<lparr>page_number = 2, slot_number = 2\<rparr>],
             rightSibPageNo = 0\<rparr>"
  have r: "readPage (bufMgr index_2) 2 = Some (LeafPage ?n, (bufMgr index_2)\<lparr>pinCnt := [0, 1]\<rparr>)"
    by (simp add: readPage_def validPage_def getPage_def index_2_def idle_def leafPage_def)
  have a: "2 \<le> (2::nat)" "length (LeafNodeInt.keyArray ?n) = 2" "length (ridArray ?n) = 2"
    "\<forall>k<2::nat. page_number (ridArray ?n ! k) \<noteq> 0" "0 < LeafNodeInt.keyArray ?n ! 0"
    by (simp_all add: less_Suc_eq numeral_2_eq_2)
  have e: "splitLeafNode_temp 2 ?n 0 (rid_of 7) = ([0, 1, 2], [rid_of 7, rid_of 1, rid_of 2])"
    "getPage (snd (splitLeafNode 2 0 (rid_of 7) 2 (bufMgr index_2))) 2 = leafPage [1, 2] [(1, 1), (0, 2)] 3"
    "getPage (snd (splitLeafNode 2 0 (rid_of 7) 2 (bufMgr index_2))) 3 = leafPage [1, 2] [(1, 1), (2, 2)] 0"
    "insertEntry 1 2 2 0 (rid_of 7) index_2
       = Some (Inr (),
               idle [metaPage 4,
                     leafPage [1, 2] [(1, 1), (0, 2)] 3,
                     leafPage [1, 2] [(1, 1), (2, 2)] 0,
                     nonLeafPage 1 [1, 0] [2, 3, 0]]
                    [True, True, True, True] 4)"
    by code_simp+
  have l: "length (pages (bufMgr index_2)) = 2"
    by (simp add: index_2_def idle_def)
  from splitLeafNode_keeps_old_front[OF r a, of "rid_of 7"] r e l
  show ?thesis by (simp add: leafPage_def)
qed

section \<open>The temporary arrays of a non-leaf split\<close>

lemma splitNonLeafNode_merge_append:
  "i \<le> M \<Longrightarrow> length tk = M + 1 \<Longrightarrow> length tp = M + 2
     \<Longrightarrow> length (NonLeafNodeInt.keyArray node) = M \<Longrightarrow> length (pageNoArray node) = M + 1
     \<Longrightarrow> \<forall>j<M. pageNoArray node ! (j + 1) \<noteq> 0 \<and> NonLeafNodeInt.keyArray node ! j \<le> key
     \<Longrightarrow> splitNonLeafNode_merge M node key sonPid pid i i (tk, tp)
         = (take i tk @ drop i (NonLeafNodeInt.keyArray node) @ [key],
            take (i + 1) tp @ drop (i + 1) (pageNoArray node) @ [pid])"
proof (induction "M - i" arbitrary: i tk tp)
  case 0
  then have i: "i = M" by simp
  show ?case
    using 0 unfolding i
    by (subst splitNonLeafNode_merge.simps) (simp add: upd_conv_take_nth_drop)
next
  case (Suc d)
  then have lt: "i < M" by simp
  have d: "d = M - (i + 1)" using Suc.hyps by simp
  have le: "i + 1 \<le> M" using lt by simp
  let ?tk = "tk[i := NonLeafNodeInt.keyArray node ! i]"
  let ?tp = "tp[i + 1 := pageNoArray node ! (i + 1)]"
  have step: "splitNonLeafNode_merge M node key sonPid pid i i (tk, tp)
                = splitNonLeafNode_merge M node key sonPid pid (i + 1) (i + 1) (?tk, ?tp)"
    using lt Suc.prems(6) by (subst splitNonLeafNode_merge.simps) auto
  have ih: "splitNonLeafNode_merge M node key sonPid pid (i + 1) (i + 1) (?tk, ?tp)
              = (take (i + 1) ?tk @ drop (i + 1) (NonLeafNodeInt.keyArray node) @ [key],
                 take (i + 1 + 1) ?tp @ drop (i + 1 + 1) (pageNoArray node) @ [pid])"
    using Suc.hyps(1)[OF d le, of ?tk ?tp] Suc.prems by simp
  have k: "take (i + 1) ?tk @ drop (i + 1) (NonLeafNodeInt.keyArray node)
             = take i tk @ drop i (NonLeafNodeInt.keyArray node)"
    using lt Suc.prems(2,4) by (simp add: take_Suc_conv_app_nth Cons_nth_drop_Suc)
  have p: "take (i + 1 + 1) ?tp @ drop (i + 1 + 1) (pageNoArray node)
             = take (i + 1) tp @ drop (i + 1) (pageNoArray node)"
    using lt Suc.prems(3,5) by (simp add: take_Suc_conv_app_nth Cons_nth_drop_Suc)
  show ?case
    unfolding step ih using k p by simp
qed

text \<open>
  C3. The claim is that the child pointer appended to the temporary arrays, when the
  new key is not below any key of the node, is the page of the new child. For a full
  node and such a key the temporary arrays are the node's keys followed by the new
  key, and the node's child pointers followed by \<open>pid\<close>, the page of the node that is
  being split; \<open>sonPid\<close>, the page of the new child, is not stored.
\<close>

theorem splitNonLeafNode_temp_appends_own_page:
  assumes "length (NonLeafNodeInt.keyArray node) = M" and "length (pageNoArray node) = M + 1"
    and "\<forall>j<M. pageNoArray node ! (j + 1) \<noteq> 0 \<and> NonLeafNodeInt.keyArray node ! j \<le> key"
  shows "splitNonLeafNode_temp M node key sonPid pid
           = (NonLeafNodeInt.keyArray node @ [key], pageNoArray node @ [pid])"
proof -
  have t: "take (0 + 1) ((replicate (M + 2) 0)[0 := pageNoArray node ! 0]) @ drop (0 + 1) (pageNoArray node)
             = pageNoArray node"
    using assms(2) by (cases "pageNoArray node") simp_all
  show ?thesis
    unfolding splitNonLeafNode_temp_def
    using splitNonLeafNode_merge_append[OF _ _ _ assms, of 0 "replicate (M + 1) 0"
            "(replicate (M + 2) 0)[0 := pageNoArray node ! 0]" sonPid pid] t
    by simp
qed

theorem splitNonLeafNode_temp_appends_own_page_witness:
  "getPage (bufMgr index_4) 4 = nonLeafPage 1 [2, 3] [2, 3, 5]
   \<and> splitNonLeafNode_temp 2 \<lparr>NonLeafNodeInt.level = 1, keyArray = [2, 3], pageNoArray = [2, 3, 5]\<rparr> 4 6 4
       = ([2, 3, 4], [2, 3, 5, 4])
   \<and> insertEntry 2 2 2 5 (rid_of 5) index_4 = Some (Inr (), index_5)
   \<and> getPage (bufMgr index_5) 7 = nonLeafPage 1 [4, 0] [5, 4, 0]
   \<and> getPage (bufMgr index_5) 6 = leafPage [4, 5] [(4, 4), (5, 5)] 0"
proof -
  let ?n = "\<lparr>NonLeafNodeInt.level = 1, keyArray = [2, 3], pageNoArray = [2, 3, 5]\<rparr>"
  have a: "length (NonLeafNodeInt.keyArray ?n) = 2" "length (pageNoArray ?n) = 2 + 1"
    "\<forall>j<2::nat. pageNoArray ?n ! (j + 1) \<noteq> 0 \<and> NonLeafNodeInt.keyArray ?n ! j \<le> 4"
    by (simp_all add: less_Suc_eq numeral_2_eq_2)
  have g: "getPage (bufMgr index_4) 4 = nonLeafPage 1 [2, 3] [2, 3, 5]"
    "getPage (bufMgr index_5) 7 = nonLeafPage 1 [4, 0] [5, 4, 0]"
    "getPage (bufMgr index_5) 6 = leafPage [4, 5] [(4, 4), (5, 5)] 0"
    by (simp_all add: index_4_def index_5_def idle_def getPage_def)
  from splitNonLeafNode_temp_appends_own_page[OF a, of 6 4] g index_5_reached
  show ?thesis by simp
qed

section \<open>The new root\<close>

text \<open>
  C7, as stated: the claim gives the new root the level of the old root when the old
  root is not a leaf. On \<open>index_4\<close> the root is a non-leaf node of level 1;
  \<open>insertEntry\<close> of key 5 splits it, and the new root has level 0.
\<close>

theorem root_split_level_counterexample:
  "pageLevel (getPage (bufMgr index_4) (rootPageNum index_4)) = Some 1
   \<and> insertEntry 2 2 2 5 (rid_of 5) index_4 = Some (Inr (), index_5)
   \<and> rootPageNum index_5 \<noteq> rootPageNum index_4
   \<and> pageLevel (getPage (bufMgr index_5) (rootPageNum index_5)) = Some 0"
  using index_5_reached
  by (simp add: index_4_def index_5_def idle_def getPage_def nonLeafPage_def)

text \<open>
  The file never loses a page during an insertion: each function below leaves at
  least as many pages as it found.
\<close>

lemma putPage_length: "length (pages (putPage bm pid p)) = length (pages bm)"
  by (simp add: putPage_def)

lemma allocPage_length: "length (pages (snd (allocPage bm))) = length (pages bm) + 1"
  by (simp add: allocPage_def Let_def)

lemma splitLeafNode_length: "length (pages bm) \<le> length (pages (snd (splitLeafNode L key rid pid bm)))"
  unfolding splitLeafNode_def allocLeaf_def
  by (auto simp: Let_def unPinPage_pages putPage_length allocPage_def dest!: readPage_pages
           split: option.splits Page.splits prod.splits)

lemma splitNonLeafNode_length:
  "length (pages bm) \<le> length (pages (snd (splitNonLeafNode M key sonPid pid bm)))"
  unfolding splitNonLeafNode_def allocNonLeaf_def
  by (auto simp: Let_def unPinPage_pages putPage_length allocPage_def dest!: readPage_pages
           split: option.splits Page.splits prod.splits)

lemma insertToLeaf_length: "length (pages bm) \<le> length (pages (snd (insertToLeaf L key rid pid bm)))"
proof (cases "readPage bm pid")
  case None
  then show ?thesis by (simp add: insertToLeaf_def)
next
  case (Some a)
  obtain pg bm1 where a: "a = (pg, bm1)" by (cases a)
  have rd: "pages bm1 = pages bm" using Some a readPage_pages by blast
  have sp: "length (pages bm) \<le> length (pages (snd (splitLeafNode L key rid pid (unPinPage bm1 pid True))))"
    using splitLeafNode_length[of "unPinPage bm1 pid True" L key rid pid] rd
    by (simp add: unPinPage_pages)
  show ?thesis
    using Some a rd sp
    by (cases pg) (auto simp: insertToLeaf_def unPinPage_pages putPage_length
                        split: prod.splits sum.splits)
qed

lemma insertToNonLeafNode_length:
  "length (pages bm) \<le> length (pages (snd (insertToNonLeafNode M key sonPid pid bm)))"
proof (cases "readPage bm pid")
  case None
  then show ?thesis by (simp add: insertToNonLeafNode_def)
next
  case (Some a)
  obtain pg bm1 where a: "a = (pg, bm1)" by (cases a)
  have rd: "pages bm1 = pages bm" using Some a readPage_pages by blast
  have sp: "length (pages bm) \<le> length (pages (snd (splitNonLeafNode M key sonPid pid (unPinPage bm1 pid True))))"
    using splitNonLeafNode_length[of "unPinPage bm1 pid True" M key sonPid pid] rd
    by (simp add: unPinPage_pages)
  show ?thesis
    using Some a rd sp
    by (cases pg) (auto simp: insertToNonLeafNode_def unPinPage_pages putPage_length Let_def
                        split: prod.splits sum.splits)
qed

lemma insertNode_length:
  "insertNode fuel L M key rid pid bm = Some (r, bm') \<Longrightarrow> length (pages bm) \<le> length (pages bm')"
proof (induction fuel arbitrary: pid bm r bm')
  case 0
  then show ?case by simp
next
  case (Suc fuel)
  show ?case
  proof (cases "readPage bm pid")
    case None
    with Suc.prems show ?thesis by simp
  next
    case (Some a)
    obtain pg bm1 where a: "a = (pg, bm1)" by (cases a)
    have rd: "pages bm1 = pages bm" using Some a readPage_pages by blast
    have lf: "length (pages bm) \<le> length (pages (snd (insertToLeaf L key rid pid (unPinPage bm1 pid False))))"
      using insertToLeaf_length[of "unPinPage bm1 pid False" L key rid pid] rd
      by (simp add: unPinPage_pages)
    have nl: "\<And>k s b r' b'. insertToNonLeafNode M k s pid b = (r', b')
                \<Longrightarrow> length (pages bm) \<le> length (pages b)
                \<Longrightarrow> length (pages bm) \<le> length (pages b')"
      using insertToNonLeafNode_length le_trans by (metis snd_conv)
    have ih: "\<And>s r b. insertNode fuel L M key rid s (unPinPage bm1 pid True) = Some (r, b)
                \<Longrightarrow> length (pages bm) \<le> length (pages b)"
      using Suc.IH rd by (fastforce simp: unPinPage_pages)
    show ?thesis
      using Suc.prems Some a rd lf
      by (auto simp: Let_def dest!: ih elim: nl
               split: option.splits if_splits Page.splits sum.splits prod.splits)
  qed
qed

lemma insertEntry_newRoot_fresh:
  assumes "0 < M"
    and "validPage (bufMgr this) (headerPageNum this)"
    and "getPage (bufMgr this) (headerPageNum this) = MetaPage header"
  shows "\<exists>this'. insertEntry_newRoot M lvl midKey pid newPid this = (Inr (), this')
           \<and> rootPageNum this' = length (pages (bufMgr this)) + 1
           \<and> length (pages (bufMgr this')) = length (pages (bufMgr this)) + 1
           \<and> headerPageNum this' = headerPageNum this
           \<and> (case getPage (bufMgr this') (rootPageNum this') of
                 NonLeafPage newRoot \<Rightarrow>
                   NonLeafNodeInt.level newRoot = lvl
                   \<and> NonLeafNodeInt.keyArray newRoot ! 0 = midKey
                   \<and> pageNoArray newRoot ! 0 = pid
                   \<and> pageNoArray newRoot ! 1 = newPid
               | _ \<Rightarrow> False)
           \<and> getPage (bufMgr this') (headerPageNum this')
               = MetaPage (header\<lparr>rootPageNo := rootPageNum this'\<rparr>)"
  using assms
  unfolding insertEntry_newRoot_def allocNonLeaf_def allocPage_def updateRootPageNo_def
            emptyNonLeaf_def
  by (auto simp: Let_def readPage_def putPage_def unPinPage_def validPage_def getPage_def
                 nth_append nth_list_update
           split: if_splits Page.splits prod.splits)

text \<open>
  C7, amended: when the insertion below the root reports a split with promoted key
  \<open>midKey\<close> and new page \<open>newPid\<close>, and the header page is a metadata page,
  \<open>insertEntry\<close> returns normally; the root is then a freshly allocated page (the next
  page number of the file, not a page of the file before, and not the old root); the
  new root has level 1 if the old root was a leaf and level 0 otherwise, its
  \<open>keyArray[0]\<close> is \<open>midKey\<close>, its \<open>pageNoArray[0]\<close> is the old root's page number, its
  \<open>pageNoArray[1]\<close> is \<open>newPid\<close>, and the metadata page holds the new root's page
  number.
\<close>

theorem insertEntry_root_split:
  assumes "0 < M"
    and "readPage (bufMgr this) (rootPageNum this) = Some (curPage, bm1)"
    and "pageLevel curPage = Some lv"
    and "(if lv = - 1
          then Some (insertToLeaf L key rid (rootPageNum this) (unPinPage bm1 (rootPageNum this) True))
          else insertNode fuel L M key rid (rootPageNum this) (unPinPage bm1 (rootPageNum this) True))
         = Some (Inr (Some (midKey, newPid)), bm2)"
    and "validPage bm2 (headerPageNum this)"
    and "getPage bm2 (headerPageNum this) = MetaPage header"
  shows "\<exists>this'. insertEntry fuel L M key rid this = Some (Inr (), this')
           \<and> rootPageNum this' = length (pages bm2) + 1
           \<and> length (pages (bufMgr this')) = length (pages bm2) + 1
           \<and> \<not> validPage bm2 (rootPageNum this')
           \<and> validPage (bufMgr this') (rootPageNum this')
           \<and> rootPageNum this' \<noteq> rootPageNum this
           \<and> (case getPage (bufMgr this') (rootPageNum this') of
                 NonLeafPage newRoot \<Rightarrow>
                   NonLeafNodeInt.level newRoot = (if lv = - 1 then 1 else 0)
                   \<and> NonLeafNodeInt.keyArray newRoot ! 0 = midKey
                   \<and> pageNoArray newRoot ! 0 = rootPageNum this
                   \<and> pageNoArray newRoot ! 1 = newPid
               | _ \<Rightarrow> False)
           \<and> (case getPage (bufMgr this') (headerPageNum this') of
                 MetaPage header' \<Rightarrow> rootPageNo header' = rootPageNum this'
               | _ \<Rightarrow> False)"
proof -
  let ?root = "rootPageNum this"
  let ?bm = "unPinPage bm1 ?root True"
  have v: "?root \<le> length (pages (bufMgr this))" "pages bm1 = pages (bufMgr this)"
    using assms(2) by (auto simp: readPage_def validPage_def split: if_splits)
  have grow: "length (pages ?bm) \<le> length (pages bm2)"
  proof (cases "lv = - 1")
    case True
    with assms(4) have "insertToLeaf L key rid ?root ?bm = (Inr (Some (midKey, newPid)), bm2)"
      by simp
    with insertToLeaf_length[of ?bm L key rid ?root] show ?thesis by simp
  next
    case False
    with assms(4) have "insertNode fuel L M key rid ?root ?bm = Some (Inr (Some (midKey, newPid)), bm2)"
      by simp
    from insertNode_length[OF this] show ?thesis .
  qed
  have old: "?root \<le> length (pages bm2)"
    using v grow by (simp add: unPinPage_pages)
  have eq: "insertEntry fuel L M key rid this
              = Some (insertEntry_newRoot M (if lv = - 1 then 1 else 0) midKey ?root newPid
                        (this\<lparr>bufMgr := bm2\<rparr>))"
    using assms(2,3,4) unfolding insertEntry_def Let_def
    by (auto split: if_splits)
  obtain this' where n:
    "insertEntry_newRoot M (if lv = - 1 then 1 else 0) midKey ?root newPid (this\<lparr>bufMgr := bm2\<rparr>)
       = (Inr (), this')"
    "rootPageNum this' = length (pages bm2) + 1"
    "length (pages (bufMgr this')) = length (pages bm2) + 1"
    "headerPageNum this' = headerPageNum this"
    "(case getPage (bufMgr this') (rootPageNum this') of
        NonLeafPage newRoot \<Rightarrow>
          NonLeafNodeInt.level newRoot = (if lv = - 1 then 1 else 0)
          \<and> NonLeafNodeInt.keyArray newRoot ! 0 = midKey
          \<and> pageNoArray newRoot ! 0 = ?root
          \<and> pageNoArray newRoot ! 1 = newPid
      | _ \<Rightarrow> False)"
    "getPage (bufMgr this') (headerPageNum this') = MetaPage (header\<lparr>rootPageNo := rootPageNum this'\<rparr>)"
    using insertEntry_newRoot_fresh[of M "this\<lparr>bufMgr := bm2\<rparr>" header
            "if lv = - 1 then 1 else 0" midKey ?root newPid] assms(1,5,6)
    by auto
  have h: "(case getPage (bufMgr this') (headerPageNum this') of
              MetaPage header' \<Rightarrow> rootPageNo header' = rootPageNum this'
            | _ \<Rightarrow> False)"
    using n(6) by simp
  have f: "\<not> validPage bm2 (rootPageNum this')" "validPage (bufMgr this') (rootPageNum this')"
    "rootPageNum this' \<noteq> ?root"
    using n(2,3) old by (simp_all add: validPage_def)
  have e: "insertEntry fuel L M key rid this = Some (Inr (), this')"
    using eq n(1) by simp
  show ?thesis
    by (intro exI[of _ this'] conjI) (fact e n(2) n(3) f n(5) h)+
qed

theorem insertEntry_root_split_witness:
  "readPage (bufMgr index_4) (rootPageNum index_4)
     = Some (nonLeafPage 1 [2, 3] [2, 3, 5], (bufMgr index_4)\<lparr>pinCnt := [0, 0, 0, 1, 0]\<rparr>)
   \<and> pageLevel (nonLeafPage 1 [2, 3] [2, 3, 5]) = Some 1
   \<and> insertNode 2 2 2 5 (rid_of 5) (rootPageNum index_4)
        (unPinPage ((bufMgr index_4)\<lparr>pinCnt := [0, 0, 0, 1, 0]\<rparr>) (rootPageNum index_4) True)
      = Some (Inr (Some (3, 7)), bufMgr index_4_descended)
   \<and> validPage (bufMgr index_4_descended) (headerPageNum index_4)
   \<and> getPage (bufMgr index_4_descended) (headerPageNum index_4) = metaPage 4
   \<and> length (pages (bufMgr index_4_descended)) = 7
   \<and> insertEntry 2 2 2 5 (rid_of 5) index_4 = Some (Inr (), index_5)
   \<and> rootPageNum index_5 = length (pages (bufMgr index_4_descended)) + 1
   \<and> length (pages (bufMgr index_5)) = length (pages (bufMgr index_4_descended)) + 1
   \<and> \<not> validPage (bufMgr index_4_descended) (rootPageNum index_5)
   \<and> validPage (bufMgr index_5) (rootPageNum index_5)
   \<and> rootPageNum index_5 \<noteq> rootPageNum index_4
   \<and> getPage (bufMgr index_5) (rootPageNum index_5) = nonLeafPage 0 [3, 0] [4, 7, 0]
   \<and> getPage (bufMgr index_5) (headerPageNum index_5) = metaPage 8"
proof -
  let ?bm1 = "(bufMgr index_4)\<lparr>pinCnt := [0, 0, 0, 1, 0]\<rparr>"
  let ?h = "\<lparr>relationName = ''rel'', attrByteOffset = 0, attrType = INTEGER, rootPageNo = 4\<rparr>"
  have r: "readPage (bufMgr index_4) (rootPageNum index_4) = Some (nonLeafPage 1 [2, 3] [2, 3, 5], ?bm1)"
    by (simp add: readPage_def validPage_def getPage_def index_4_def idle_def)
  have l: "pageLevel (nonLeafPage 1 [2, 3] [2, 3, 5]) = Some 1"
    by (simp add: nonLeafPage_def)
  have n: "insertNode 2 2 2 5 (rid_of 5) (rootPageNum index_4) (unPinPage ?bm1 (rootPageNum index_4) True)
             = Some (Inr (Some (3, 7)), bufMgr index_4_descended)"
    by code_simp
  have n': "(if (1::int) = - 1
             then Some (insertToLeaf 2 5 (rid_of 5) (rootPageNum index_4)
                          (unPinPage ?bm1 (rootPageNum index_4) True))
             else insertNode 2 2 2 5 (rid_of 5) (rootPageNum index_4)
                    (unPinPage ?bm1 (rootPageNum index_4) True))
            = Some (Inr (Some (3, 7)), bufMgr index_4_descended)"
    using n by simp
  have v: "validPage (bufMgr index_4_descended) (headerPageNum index_4)"
    by (simp add: validPage_def index_4_def index_4_descended_def idle_def)
  have g: "getPage (bufMgr index_4_descended) (headerPageNum index_4) = MetaPage ?h"
    by (simp add: getPage_def index_4_def index_4_descended_def idle_def metaPage_def)
  have len: "length (pages (bufMgr index_4_descended)) = 7"
    by (simp add: index_4_descended_def idle_def)
  have p: "getPage (bufMgr index_5) (rootPageNum index_5) = nonLeafPage 0 [3, 0] [4, 7, 0]"
    "getPage (bufMgr index_5) (headerPageNum index_5) = metaPage 8"
    by (simp_all add: index_5_def idle_def getPage_def)
  have m: "0 < (2::nat)" by simp
  from insertEntry_root_split[OF m r l n' v g] index_5_reached
  have c: "rootPageNum index_5 = length (pages (bufMgr index_4_descended)) + 1"
    "length (pages (bufMgr index_5)) = length (pages (bufMgr index_4_descended)) + 1"
    "\<not> validPage (bufMgr index_4_descended) (rootPageNum index_5)"
    "validPage (bufMgr index_5) (rootPageNum index_5)"
    "rootPageNum index_5 \<noteq> rootPageNum index_4"
    by auto
  show ?thesis
    using r l n v g len index_5_reached c p by (simp add: metaPage_def)
qed

end
